theory Spec2Isabelle
  imports Complex_Main
begin

section \<open>Floating-point values of the data frame\<close>

text \<open>
  The scripts keep every column in a pandas data frame of 64-bit floats. A value is a
  finite number, one of the two infinities, or NaN (pandas' marker of a missing value).
  Finite numbers are modelled as reals: rounding, overflow and the sign of zero are not
  modelled, so an equation or a comparison of finite numbers below is one between the
  exact values of the expressions that the scripts evaluate. Where a claim turns on
  rounding (a moving average staying between the least and the greatest close), the
  moving average is modelled a second time with every operation rounded to 64 bits
  (\<open>ewm64_values\<close> below). The operations below follow IEEE 754 on the special
  values, which is what numpy does (a division by zero gives an infinity or NaN with a
  warning, no exception).
\<close>

datatype f64 = Fin real | PInf | NInf | NaN

datatype error = ValueError | IndexError

definition sgn_inf :: "real \<Rightarrow> f64" where
  "sgn_inf a = (if 0 < a then PInf else if a < 0 then NInf else NaN)"

fun fneg :: "f64 \<Rightarrow> f64" where
  "fneg (Fin a) = Fin (- a)"
| "fneg PInf = NInf"
| "fneg NInf = PInf"
| "fneg NaN = NaN"

fun fadd :: "f64 \<Rightarrow> f64 \<Rightarrow> f64" where
  "fadd (Fin a) (Fin b) = Fin (a + b)"
| "fadd NaN y = NaN"
| "fadd x NaN = NaN"
| "fadd PInf NInf = NaN"
| "fadd NInf PInf = NaN"
| "fadd PInf y = PInf"
| "fadd NInf y = NInf"
| "fadd x PInf = PInf"
| "fadd x NInf = NInf"

definition fsub :: "f64 \<Rightarrow> f64 \<Rightarrow> f64" where
  "fsub x y = fadd x (fneg y)"

fun fmul :: "f64 \<Rightarrow> f64 \<Rightarrow> f64" where
  "fmul (Fin a) (Fin b) = Fin (a * b)"
| "fmul NaN y = NaN"
| "fmul x NaN = NaN"
| "fmul (Fin a) PInf = sgn_inf a"
| "fmul (Fin a) NInf = sgn_inf (- a)"
| "fmul PInf (Fin b) = sgn_inf b"
| "fmul NInf (Fin b) = sgn_inf (- b)"
| "fmul PInf PInf = PInf"
| "fmul NInf NInf = PInf"
| "fmul PInf NInf = NInf"
| "fmul NInf PInf = NInf"

fun fdiv :: "f64 \<Rightarrow> f64 \<Rightarrow> f64" where
  "fdiv (Fin a) (Fin b) = (if b = 0 then sgn_inf a else Fin (a / b))"
| "fdiv NaN y = NaN"
| "fdiv x NaN = NaN"
| "fdiv (Fin a) y = Fin 0"
| "fdiv PInf (Fin b) = (if 0 \<le> b then PInf else NInf)"
| "fdiv NInf (Fin b) = (if 0 \<le> b then NInf else PInf)"
| "fdiv x y = NaN"

fun fsqrt :: "f64 \<Rightarrow> f64" where
  "fsqrt (Fin a) = (if a < 0 then NaN else Fin (sqrt a))"
| "fsqrt PInf = PInf"
| "fsqrt x = NaN"

text \<open>The comparison \<open>x > y\<close>: false as soon as one side is NaN.\<close>

fun fgt :: "f64 \<Rightarrow> f64 \<Rightarrow> bool" where
  "fgt (Fin a) (Fin b) = (b < a)"
| "fgt NaN y = False"
| "fgt x NaN = False"
| "fgt PInf PInf = False"
| "fgt PInf y = True"
| "fgt x PInf = False"
| "fgt NInf y = False"
| "fgt x NInf = True"

section \<open>pandas operations used by the scripts\<close>

text \<open>
  \<open>Series.ewm(span=w, adjust=False).mean()\<close> on a series without missing values: the
  first output is the first observation, and each later output is the running weighted
  value \<open>(1 - \<alpha>) * weighted + \<alpha> * cur\<close>. pandas derives \<open>\<alpha> = 2 / (span + 1)\<close> from the
  span and raises ValueError for a span below 1.
\<close>

fun ewm_loop :: "real \<Rightarrow> real \<Rightarrow> real list \<Rightarrow> real list" where
  "ewm_loop \<alpha> weighted [] = []"
| "ewm_loop \<alpha> weighted (cur # xs) =
     (let weighted' = (1 - \<alpha>) * weighted + \<alpha> * cur
      in weighted' # ewm_loop \<alpha> weighted' xs)"

fun ewm_values :: "real \<Rightarrow> real list \<Rightarrow> real list" where
  "ewm_values \<alpha> [] = []"
| "ewm_values \<alpha> (x # xs) = x # ewm_loop \<alpha> x xs"

definition span_alpha :: "int \<Rightarrow> real" where
  "span_alpha w = 2 / (real_of_int w + 1)"

definition ewm_mean :: "int \<Rightarrow> real list \<Rightarrow> error + real list" where
  "ewm_mean w xs =
     (if w < 1 then Inl ValueError else Inr (ewm_values (span_alpha w) xs))"

text \<open>
  The same call as the machine computes it, in 64-bit floating point. \<open>fl\<close> rounds a real
  number to the nearest number with 53 significant bits, a tie to the even significand:
  IEEE 754 binary64 with the exponent range left unbounded (overflow and denormal numbers
  are not modelled). pandas computes \<open>com = (span - 1) / 2\<close>, \<open>alpha = 1 / (1 + com)\<close> and
  \<open>old_wt_factor = 1 - alpha\<close>; for each later observation it sets
  \<open>old_wt = 1 * old_wt_factor\<close> and, unless \<open>weighted == cur\<close>,
  \<open>weighted = (old_wt * weighted + new_wt * cur) / (old_wt + new_wt)\<close> with
  \<open>new_wt = alpha\<close>. Every operation rounds, except the product with 1. \<open>ewm_loop\<close>
  above is this loop with exact operations, where \<open>old_wt + new_wt = 1\<close>.
\<close>

definition rne :: "real \<Rightarrow> int" where
  "rne y = (let f = \<lfloor>y\<rfloor>
            in if y - of_int f < 1 / 2 then f
               else if 1 / 2 < y - of_int f then f + 1
               else if even f then f else f + 1)"

definition fl :: "real \<Rightarrow> real" where
  "fl x = (if x = 0 then 0
           else let e = real_of_int \<lfloor>log 2 \<bar>x\<bar>\<rfloor> - 52
                in real_of_int (rne (x / 2 powr e)) * 2 powr e)"

fun ewm64_loop :: "real \<Rightarrow> real \<Rightarrow> real \<Rightarrow> real list \<Rightarrow> real list" where
  "ewm64_loop old_wt_factor new_wt weighted [] = []"
| "ewm64_loop old_wt_factor new_wt weighted (cur # xs) =
     (let old_wt = 1 * old_wt_factor;
          weighted' =
            (if weighted \<noteq> cur
             then fl (fl (fl (old_wt * weighted) + fl (new_wt * cur)) / fl (old_wt + new_wt))
             else weighted)
      in weighted' # ewm64_loop old_wt_factor new_wt weighted' xs)"

definition ewm64_values :: "int \<Rightarrow> real list \<Rightarrow> real list" where
  "ewm64_values w closes =
     (let com = fl ((real_of_int w - 1) / 2);
          alpha = fl (1 / fl (1 + com));
          old_wt_factor = fl (1 - alpha)
      in case closes of [] \<Rightarrow> [] | x # xs \<Rightarrow> x # ewm64_loop old_wt_factor alpha x xs)"

definition ewm64_mean :: "int \<Rightarrow> real list \<Rightarrow> error + real list" where
  "ewm64_mean w xs = (if w < 1 then Inl ValueError else Inr (ewm64_values w xs))"

text \<open>\<open>Series.shift(1)\<close>: every value moves one row down, the first row becomes NaN.\<close>

definition shift1 :: "f64 list \<Rightarrow> f64 list" where
  "shift1 xs = (if xs = [] then [] else NaN # butlast xs)"

text \<open>\<open>Series.pct_change()\<close> is \<open>x / x.shift(1) - 1\<close>, and \<open>Series.diff()\<close> is
  \<open>x - x.shift(1)\<close>.\<close>

definition pct_change :: "f64 list \<Rightarrow> f64 list" where
  "pct_change xs = map2 (\<lambda>x p. fsub (fdiv x p) (Fin 1)) xs (shift1 xs)"

definition diff :: "f64 list \<Rightarrow> f64 list" where
  "diff xs = map2 fsub xs (shift1 xs)"

text \<open>
  \<open>Series.cumprod()\<close> skips missing values: a NaN row stays NaN and leaves the running
  product as it is. \<open>Series.prod()\<close>, \<open>mean()\<close> and \<open>std()\<close> (sample deviation,
  \<open>ddof = 1\<close>) work on the values that are not NaN; the mean of no value and the
  deviation of fewer than two values are NaN.
\<close>

fun cumprod_from :: "f64 \<Rightarrow> f64 list \<Rightarrow> f64 list" where
  "cumprod_from acc [] = []"
| "cumprod_from acc (x # xs) =
     (if x = NaN then NaN # cumprod_from acc xs
      else fmul acc x # cumprod_from (fmul acc x) xs)"

definition cumprod :: "f64 list \<Rightarrow> f64 list" where
  "cumprod xs = cumprod_from (Fin 1) xs"

definition dropna :: "f64 list \<Rightarrow> f64 list" where
  "dropna xs = filter (\<lambda>x. x \<noteq> NaN) xs"

definition fsum :: "f64 list \<Rightarrow> f64" where
  "fsum xs = foldl fadd (Fin 0) xs"


definition mean_skipna :: "f64 list \<Rightarrow> f64" where
  "mean_skipna xs =
     (let v = dropna xs
      in if v = [] then NaN else fdiv (fsum v) (Fin (real (length v))))"

definition std_skipna :: "f64 list \<Rightarrow> f64" where
  "std_skipna xs =
     (let v = dropna xs; n = length v
      in if n \<le> 1 then NaN
         else let avg = fdiv (fsum v) (Fin (real n));
                  sqr = map (\<lambda>x. fmul (fsub avg x) (fsub avg x)) v
              in fsqrt (fdiv (fsum sqr) (Fin (real n - 1))))"

text \<open>\<open>Series.iloc[-1]\<close> raises IndexError on an empty series.\<close>

definition iloc_last :: "'a list \<Rightarrow> error + 'a" where
  "iloc_last xs = (if xs = [] then Inl IndexError else Inr (last xs))"

section \<open>The columns of the backtest\<close>

text \<open>
  Both scripts (\<open>app.py\<close> and \<open>main.py\<close>) build the same columns from the closing
  prices, which hold no missing value after \<open>dropna\<close>. \<open>np.where\<close> gives the signal as
  integers; the shift turns the position into a float column.
\<close>

definition signal_col :: "real list \<Rightarrow> real list \<Rightarrow> int list" where
  "signal_col ema_short ema_long = map2 (\<lambda>s l. if l < s then 1 else 0) ema_short ema_long"

definition position_col :: "int list \<Rightarrow> f64 list" where
  "position_col sig = shift1 (map (\<lambda>s. Fin (of_int s)) sig)"

definition return_col :: "real list \<Rightarrow> f64 list" where
  "return_col closes = pct_change (map Fin closes)"

definition strategy_return_col :: "f64 list \<Rightarrow> f64 list \<Rightarrow> f64 list" where
  "strategy_return_col ret pos = map2 fmul ret pos"

definition cum_value :: "f64 list \<Rightarrow> real \<Rightarrow> f64 list" where
  "cum_value rets initial_cash =
     map (\<lambda>v. fmul v (Fin initial_cash)) (cumprod (map (fadd (Fin 1)) rets))"

record frame =
  Close :: "real list"
  EMA_short :: "real list"
  EMA_long :: "real list"
  Signal :: "int list"
  Position :: "f64 list"
  Return :: "f64 list"
  Strategy_Return :: "f64 list"
  Portfolio_Value :: "f64 list"
  Buy_Hold_Value :: "f64 list"

definition columns :: "real list \<Rightarrow> real list \<Rightarrow> real list \<Rightarrow> real \<Rightarrow> frame" where
  "columns closes es el initial_cash =
     (let sig = signal_col es el;
          pos = position_col sig;
          ret = return_col closes;
          sr = strategy_return_col ret pos
      in \<lparr> Close = closes, EMA_short = es, EMA_long = el, Signal = sig,
           Position = pos, Return = ret, Strategy_Return = sr,
           Portfolio_Value = cum_value sr initial_cash,
           Buy_Hold_Value = cum_value ret initial_cash \<rparr>)"

definition pct_of_cash :: "f64 \<Rightarrow> real \<Rightarrow> f64" where
  "pct_of_cash v initial_cash =
     fmul (fsub (fdiv v (Fin initial_cash)) (Fin 1)) (Fin 100)"

definition sharpe_of :: "f64 list \<Rightarrow> f64" where
  "sharpe_of sr = fmul (fdiv (mean_skipna sr) (std_skipna sr)) (Fin (sqrt 252))"

section \<open>The backtest of app.py\<close>

record app_result =
  data :: frame
  total_return :: f64
  buyhold_return :: f64
  sharpe_ratio :: f64

definition metrics :: "frame \<Rightarrow> real \<Rightarrow> error + app_result" where
  "metrics d initial_cash =
     (case iloc_last (Portfolio_Value d) of
        Inl e \<Rightarrow> Inl e
      | Inr pv \<Rightarrow>
         (case iloc_last (Buy_Hold_Value d) of
            Inl e \<Rightarrow> Inl e
          | Inr bh \<Rightarrow>
              Inr (\<lparr> data = d,
                     total_return = pct_of_cash pv initial_cash,
                     buyhold_return = pct_of_cash bh initial_cash,
                     sharpe_ratio = sharpe_of (Strategy_Return d) \<rparr>)))"

definition ema_crossover_backtest ::
  "real list \<Rightarrow> int \<Rightarrow> int \<Rightarrow> real \<Rightarrow> error + app_result" where
  "ema_crossover_backtest closes short_window long_window initial_cash =
     (case ewm_mean short_window closes of
        Inl e \<Rightarrow> Inl e
      | Inr es \<Rightarrow>
         (case ewm_mean long_window closes of
            Inl e \<Rightarrow> Inl e
          | Inr el \<Rightarrow> metrics (columns closes es el initial_cash) initial_cash))"

section \<open>The backtest of main.py: the same columns, and the trades\<close>

text \<open>
  A bar is a date and a close. The trade analysis reads the rows where the position
  changed by \<open>+1\<close> (entries) and by \<open>-1\<close> (exits), closes a position still open with the
  last date, and pairs the two indexes row by row in a new data frame: pandas raises
  ValueError when the two arrays differ in length. The prices are read back by date with
  \<open>data.loc\<close>, which returns every row carrying the date; a column of another length
  than the frame cannot be assigned (ValueError).
\<close>

record 'd trade =
  Entry :: 'd
  Exit :: 'd
  Entry_Price :: real
  Exit_Price :: real
  Return_pct :: f64

definition index_where :: "'d list \<Rightarrow> f64 list \<Rightarrow> real \<Rightarrow> 'd list" where
  "index_where dates col v = map fst (filter (\<lambda>(d, t). t = Fin v) (zip dates col))"

definition loc_close :: "('d \<times> real) list \<Rightarrow> 'd list \<Rightarrow> real list" where
  "loc_close bars labels =
     concat (map (\<lambda>l. map snd (filter (\<lambda>(d, c). d = l) bars)) labels)"

definition trade_row :: "'d \<Rightarrow> 'd \<Rightarrow> real \<Rightarrow> real \<Rightarrow> 'd trade" where
  "trade_row en ex p q =
     \<lparr> Entry = en, Exit = ex, Entry_Price = p, Exit_Price = q,
       Return_pct = fmul (fsub (fdiv (Fin q) (Fin p)) (Fin 1)) (Fin 100) \<rparr>"

definition entries :: "('d \<times> real) list \<Rightarrow> f64 list \<Rightarrow> 'd list" where
  "entries bars pos = index_where (map fst bars) (diff pos) 1"

definition exits :: "('d \<times> real) list \<Rightarrow> f64 list \<Rightarrow> 'd list" where
  "exits bars pos = index_where (map fst bars) (diff pos) (- 1)"

definition closed_exits :: "('d \<times> real) list \<Rightarrow> f64 list \<Rightarrow> error + 'd list" where
  "closed_exits bars pos =
     (if length (exits bars pos) < length (entries bars pos)
      then (case iloc_last (map fst bars) of
              Inl e \<Rightarrow> Inl e
            | Inr d \<Rightarrow> Inr (exits bars pos @ [d]))
      else Inr (exits bars pos))"

definition extract_trades :: "('d \<times> real) list \<Rightarrow> f64 list \<Rightarrow> error + 'd trade list" where
  "extract_trades bars pos =
     (case closed_exits bars pos of
        Inl e \<Rightarrow> Inl e
      | Inr xs \<Rightarrow>
          let es = entries bars pos
          in if length es \<noteq> length xs then Inl ValueError
             else if es = [] then Inr []
             else
               let ep = loc_close bars es;
                   xp = loc_close bars xs
               in if length ep \<noteq> length es \<or> length xp \<noteq> length xs
                  then Inl ValueError
                  else Inr (map2 (\<lambda>(en, ex) (p, q). trade_row en ex p q)
                              (zip es xs) (zip ep xp)))"

record 'd main_result = app_result +
  trades :: "'d trade list"
  win_rate :: f64
  avg_trade :: f64

definition win_rate_of :: "'d trade list \<Rightarrow> f64" where
  "win_rate_of ts =
     (if ts = [] then Fin 0
      else Fin (real (length (filter (\<lambda>t. fgt (Return_pct t) (Fin 0)) ts))
                  / real (length ts) * 100))"

definition avg_trade_of :: "'d trade list \<Rightarrow> f64" where
  "avg_trade_of ts = (if ts = [] then Fin 0 else mean_skipna (map Return_pct ts))"

definition ema_crossover_backtest_main ::
  "('d \<times> real) list \<Rightarrow> int \<Rightarrow> int \<Rightarrow> real \<Rightarrow> error + 'd main_result" where
  "ema_crossover_backtest_main bars short_window long_window initial_cash =
     (let closes = map snd bars
      in case ewm_mean short_window closes of
           Inl e \<Rightarrow> Inl e
         | Inr es \<Rightarrow>
            (case ewm_mean long_window closes of
               Inl e \<Rightarrow> Inl e
             | Inr el \<Rightarrow>
                (let d = columns closes es el initial_cash
                 in case extract_trades bars (Position d) of
                      Inl e \<Rightarrow> Inl e
                    | Inr ts \<Rightarrow>
                       (case metrics d initial_cash of
                          Inl e \<Rightarrow> Inl e
                        | Inr m \<Rightarrow>
                            Inr (app_result.extend m
                                   (main_result.fields ts (win_rate_of ts) (avg_trade_of ts)))))))"

section \<open>The optimizer of main.py\<close>








section \<open>Notions used in the statements\<close>

text \<open>
  The frame that the backtest builds when both windows pass the check of \<open>ewm\<close>.
\<close>

definition ema_columns :: "real list \<Rightarrow> int \<Rightarrow> int \<Rightarrow> real \<Rightarrow> frame" where
  "ema_columns closes sw lw cash =
     columns closes (ewm_values (span_alpha sw) closes) (ewm_values (span_alpha lw) closes) cash"

text \<open>
  The returns \<open>close[i] / close[i - 1] - 1\<close> of the bars \<open>i \<ge> 1\<close> as real numbers: what
  \<open>pct_change\<close> gives from the second row on when no close is zero.
\<close>

definition raw_returns :: "real list \<Rightarrow> real list" where
  "raw_returns closes = map2 (\<lambda>x p. x / p - 1) (tl closes) (butlast closes)"


text \<open>
  The room that rounding takes at bar \<open>i\<close>: the greatest magnitude of a close times
  \<open>(1 + 2^-50)^i - 1\<close>, which is 0 at the first bar and about \<open>i * 2^-50\<close> later.
\<close>

definition rounding_slack :: "real list \<Rightarrow> nat \<Rightarrow> real" where
  "rounding_slack closes i = Max (abs ` set closes) * ((1 + 1 / 2 ^ 50) ^ i - 1)"

text \<open>
  The cumulative value of the specification at bar \<open>i\<close>: the initial cash times the product
  over \<open>k = 1..i\<close> of \<open>1 + return[k]\<close>, in the arithmetic of the frame.
\<close>

definition spec_cum_product :: "f64 list \<Rightarrow> real \<Rightarrow> nat \<Rightarrow> f64" where
  "spec_cum_product rets initial_cash i =
     fmul (Fin initial_cash)
       (foldl fmul (Fin 1) (map (\<lambda>k. fadd (Fin 1) (rets ! k)) [1..<Suc i]))"



section \<open>Facts about the moving average\<close>

lemma length_ewm_loop: "length (ewm_loop a w xs) = length xs"
  by (induction xs arbitrary: w) (simp_all add: Let_def)

lemma length_ewm_values: "length (ewm_values a xs) = length xs"
  by (cases xs) (simp_all add: length_ewm_loop)


lemma ewm_values_nth_0: "xs \<noteq> [] \<Longrightarrow> ewm_values a xs ! 0 = xs ! 0"
  by (cases xs) simp_all


section \<open>Facts about rounding and the moving average in 64 bits\<close>

lemma rne_error: "\<bar>real_of_int (rne y) - y\<bar> \<le> 1 / 2"
  unfolding rne_def Let_def by (auto simp: abs_if) linarith+

lemma rne_ge: "real_of_int n \<le> y \<Longrightarrow> n \<le> rne y"
proof -
  assume "real_of_int n \<le> y"
  then have "n \<le> \<lfloor>y\<rfloor>" by (simp add: le_floor_iff)
  moreover have "\<lfloor>y\<rfloor> \<le> rne y" by (simp add: rne_def Let_def)
  ultimately show ?thesis by simp
qed

lemma rne_le: "y \<le> real_of_int n \<Longrightarrow> rne y \<le> n"
proof -
  assume le: "y \<le> real_of_int n"
  show ?thesis
  proof (cases "y = of_int \<lfloor>y\<rfloor>")
    case True
    then have "rne y = \<lfloor>y\<rfloor>" by (simp add: rne_def Let_def)
    with le show ?thesis by (simp add: floor_le_iff)
  next
    case False
    then have "of_int \<lfloor>y\<rfloor> < y" using of_int_floor_le [of y] by linarith
    with le have "\<lfloor>y\<rfloor> < n" by linarith
    moreover have "rne y \<le> \<lfloor>y\<rfloor> + 1" by (simp add: rne_def Let_def)
    ultimately show ?thesis by linarith
  qed
qed

lemma binade:
  assumes "0 < x"
  shows "2 powr real_of_int \<lfloor>log 2 x\<rfloor> \<le> x" "x < 2 powr (real_of_int \<lfloor>log 2 x\<rfloor> + 1)"
proof -
  have "2 powr real_of_int \<lfloor>log 2 x\<rfloor> \<le> 2 powr log 2 x"
    by (intro powr_mono) simp_all
  with assms show "2 powr real_of_int \<lfloor>log 2 x\<rfloor> \<le> x" by simp
  have "2 powr log 2 x < 2 powr (real_of_int \<lfloor>log 2 x\<rfloor> + 1)"
  proof (intro powr_less_mono)
    show "log 2 x < real_of_int \<lfloor>log 2 x\<rfloor> + 1" by linarith
  qed simp
  with assms show "x < 2 powr (real_of_int \<lfloor>log 2 x\<rfloor> + 1)" by simp
qed

lemma scaled_range:
  assumes "0 < x"
  defines "e \<equiv> real_of_int \<lfloor>log 2 x\<rfloor> - 52"
  shows "2 ^ 52 \<le> x / 2 powr e" "x / 2 powr e < 2 ^ 53"
proof -
  have p: "0 < 2 powr e" by simp
  have e52: "2 powr real_of_int \<lfloor>log 2 x\<rfloor> = 2 ^ 52 * 2 powr e"
    unfolding e_def by (simp add: powr_diff)
  have e53: "2 powr (real_of_int \<lfloor>log 2 x\<rfloor> + 1) = 2 ^ 53 * 2 powr e"
    unfolding e_def by (simp add: powr_diff powr_add)
  from binade(1) [OF assms(1)] e52 have "2 ^ 52 * 2 powr e \<le> x" by simp
  with p show "2 ^ 52 \<le> x / 2 powr e" by (simp add: pos_le_divide_eq)
  from binade(2) [OF assms(1)] e53 have "x < 2 ^ 53 * 2 powr e" by simp
  with p show "x / 2 powr e < 2 ^ 53" by (simp add: pos_divide_less_eq)
qed

lemma fl_pos:
  assumes "0 < x"
  shows "fl x = real_of_int (rne (x / 2 powr (real_of_int \<lfloor>log 2 x\<rfloor> - 52)))
                  * 2 powr (real_of_int \<lfloor>log 2 x\<rfloor> - 52)"
  using assms by (simp add: fl_def Let_def)

lemma fl_abs_error: "\<bar>fl x - x\<bar> \<le> \<bar>x\<bar> / 2 ^ 53"
proof (cases "x = 0")
  case True
  then show ?thesis by (simp add: fl_def)
next
  case False
  define e where "e = real_of_int \<lfloor>log 2 \<bar>x\<bar>\<rfloor> - 52"
  define y where "y = x / 2 powr e"
  have x: "x = y * 2 powr e" by (simp add: y_def)
  have "fl x = real_of_int (rne y) * 2 powr e"
    using False by (simp add: fl_def Let_def e_def y_def)
  then have "fl x - x = (real_of_int (rne y) - y) * 2 powr e"
    by (simp add: x algebra_simps)
  then have "\<bar>fl x - x\<bar> = \<bar>real_of_int (rne y) - y\<bar> * 2 powr e"
    by (simp add: abs_mult)
  also have "\<dots> \<le> 1 / 2 * 2 powr e"
    by (intro mult_right_mono rne_error) simp
  also have "\<dots> \<le> (\<bar>y\<bar> / 2 ^ 53) * 2 powr e"
  proof (intro mult_right_mono)
    have "0 < \<bar>x\<bar>" using False by simp
    from scaled_range(1) [OF this] have "2 ^ 52 \<le> \<bar>y\<bar>" by (simp add: y_def e_def)
    then show "1 / 2 \<le> \<bar>y\<bar> / 2 ^ 53" by simp
  qed simp
  also have "\<dots> = \<bar>x\<bar> / 2 ^ 53" by (simp add: x abs_mult)
  finally show ?thesis .
qed

lemma fl_nonneg: "0 \<le> x \<Longrightarrow> 0 \<le> fl x"
proof -
  assume x: "0 \<le> x"
  have "x / 2 ^ 53 \<le> x" using x by (simp add: field_simps)
  with fl_abs_error [of x] x show ?thesis by linarith
qed

lemma fl_positive: "0 < x \<Longrightarrow> 0 < fl x"
proof -
  assume x: "0 < x"
  then have "x / 2 ^ 53 < x" by (simp add: field_simps)
  with fl_abs_error [of x] x show ?thesis by linarith
qed

lemma fl_binade:
  assumes "0 < x"
  shows "2 powr real_of_int \<lfloor>log 2 x\<rfloor> \<le> fl x"
        "fl x \<le> 2 powr (real_of_int \<lfloor>log 2 x\<rfloor> + 1)"
proof -
  define e where "e = real_of_int \<lfloor>log 2 x\<rfloor> - 52"
  define y where "y = x / 2 powr e"
  have fl: "fl x = real_of_int (rne y) * 2 powr e"
    unfolding fl_pos [OF assms] e_def y_def ..
  from scaled_range [OF assms] have y: "2 ^ 52 \<le> y" "y < 2 ^ 53" by (simp_all add: y_def e_def)
  have "real_of_int (2 ^ 52) \<le> y" using y(1) by simp
  then have "2 ^ 52 \<le> rne y" by (rule rne_ge)
  then have "real_of_int (2 ^ 52) \<le> real_of_int (rne y)" by (simp only: of_int_le_iff)
  then have lo: "(2 ^ 52 :: real) \<le> real_of_int (rne y)" by simp
  have "y \<le> real_of_int (2 ^ 53)" using y(2) by simp
  then have "rne y \<le> 2 ^ 53" by (rule rne_le)
  then have "real_of_int (rne y) \<le> real_of_int (2 ^ 53)" by (simp only: of_int_le_iff)
  then have hi: "real_of_int (rne y) \<le> 2 ^ 53" by simp
  have "2 powr real_of_int \<lfloor>log 2 x\<rfloor> = 2 ^ 52 * 2 powr e"
    by (simp add: e_def powr_diff)
  also have "\<dots> \<le> real_of_int (rne y) * 2 powr e"
    using lo by (intro mult_right_mono) simp_all
  finally show "2 powr real_of_int \<lfloor>log 2 x\<rfloor> \<le> fl x" by (simp add: fl)
  have "real_of_int (rne y) * 2 powr e \<le> 2 ^ 53 * 2 powr e"
    using hi by (intro mult_right_mono) simp_all
  also have "\<dots> = 2 powr (real_of_int \<lfloor>log 2 x\<rfloor> + 1)"
    by (simp add: e_def powr_diff powr_add)
  finally show "fl x \<le> 2 powr (real_of_int \<lfloor>log 2 x\<rfloor> + 1)" by (simp add: fl)
qed

lemma fl_ge_1: "1 \<le> x \<Longrightarrow> 1 \<le> fl x"
proof -
  assume x: "1 \<le> x"
  then have "0 \<le> log 2 x" by simp
  then have "0 \<le> \<lfloor>log 2 x\<rfloor>" by simp
  then have "2 powr 0 \<le> 2 powr real_of_int \<lfloor>log 2 x\<rfloor>"
    by (intro powr_mono) simp_all
  with fl_binade(1) [of x] x show ?thesis by simp
qed

lemma fl_le_1: "0 < x \<Longrightarrow> x \<le> 1 \<Longrightarrow> fl x \<le> 1"
proof -
  assume x: "0 < x" "x \<le> 1"
  show ?thesis
  proof (cases "x = 1")
    case True
    have "rne (2 ^ 52) = 2 ^ 52"
      using rne_ge [of "2 ^ 52" "2 ^ 52"] rne_le [of "2 ^ 52" "2 ^ 52"] by simp
    then show ?thesis using True by (simp add: fl_def powr_minus field_simps)
  next
    case False
    with x have "x < 1" by simp
    with x have "log 2 x < 0" by simp
    then have "\<lfloor>log 2 x\<rfloor> < 0" by (simp add: floor_less_iff)
    then have "real_of_int \<lfloor>log 2 x\<rfloor> + 1 \<le> 0"
      by linarith
    then have "2 powr (real_of_int \<lfloor>log 2 x\<rfloor> + 1) \<le> 2 powr 0"
      by (intro powr_mono) simp_all
    with fl_binade(2) [OF x(1)] show ?thesis by simp
  qed
qed

lemma fl_eval:
  assumes "2 ^ 52 \<le> x * 2 ^ n" "x * 2 ^ n < 2 ^ 53"
  shows "fl x = real_of_int (rne (x * 2 ^ n)) / 2 ^ n"
proof -
  have "0 < x * 2 ^ n" using assms(1) by (rule less_le_trans [rotated]) simp
  then have x: "0 < x" by (simp add: zero_less_mult_iff)
  have L: "log 2 (2 ^ k) = real k" for k by (simp add: log_nat_power)
  have "log 2 (x * 2 ^ n) = log 2 x + real n"
    using x by (simp add: log_mult log_nat_power)
  moreover have "52 \<le> log 2 (x * 2 ^ n)"
  proof -
    have "log 2 (2 ^ 52) \<le> log 2 (x * 2 ^ n)" using assms(1) by (subst log_le_cancel_iff) simp_all
    then show ?thesis by (simp only: L of_nat_numeral)
  qed
  moreover have "log 2 (x * 2 ^ n) < 53"
  proof -
    have "log 2 (x * 2 ^ n) < log 2 (2 ^ 53)"
      using assms(2) \<open>0 < x * 2 ^ n\<close> by (subst log_less_cancel_iff) simp_all
    then show ?thesis by (simp only: L of_nat_numeral)
  qed
  ultimately have "52 - real n \<le> log 2 x" "log 2 x < 53 - real n" by linarith+
  then have "\<lfloor>log 2 x\<rfloor> = 52 - int n" by (intro floor_unique) simp_all
  then have e: "real_of_int \<lfloor>log 2 x\<rfloor> - 52 = - real n" by simp
  have p: "2 powr (- real n) = 1 / 2 ^ n"
    by (simp add: powr_minus powr_realpow inverse_eq_divide)
  show ?thesis unfolding fl_pos [OF x] e p by simp
qed

lemma fl_num:
  assumes "rne (x * 2 ^ n) = m" "2 ^ 52 \<le> x * 2 ^ n" "x * 2 ^ n < 2 ^ 53"
  shows "fl x = real_of_int m / 2 ^ n"
  using fl_eval [OF assms(2,3)] assms(1) by simp

text \<open>The roundings of the loop on the closes 3 and \<open>3 + 2^-51\<close> with the span 10.\<close>

lemma fl_com: "fl (9 / 2) = 9 / 2"
  by (rule trans [OF fl_num [where n = 50 and m = 5066549580791808]])
     (simp_all add: rne_def Let_def)

lemma fl_one_plus_com: "fl (11 / 2) = 11 / 2"
  by (rule trans [OF fl_num [where n = 50 and m = 6192449487634432]])
     (simp_all add: rne_def Let_def)

lemma fl_alpha: "fl (2 / 11) = 3275345183542179 / 18014398509481984"
  by (rule trans [OF fl_num [where n = 55 and m = 6550690367084358]])
     (simp_all add: rne_def Let_def)

lemma fl_old_wt_factor: "fl (1 - 3275345183542179 / 18014398509481984) = 3684763331484951 / 4503599627370496"
  by (rule trans [OF fl_num [where n = 53 and m = 7369526662969902]])
     (simp_all add: rne_def Let_def)

lemma fl_old_term: "fl (3684763331484951 / 4503599627370496 * 3) = 2763572498613713 / 1125899906842624"
  by (rule trans [OF fl_num [where n = 51 and m = 5527144997227426]])
     (simp_all add: rne_def Let_def)

lemma fl_new_term: "fl (3275345183542179 / 18014398509481984 * (3 + 1 / 2 ^ 51))
             = 4913017775313269 / 9007199254740992"
  by (rule trans [OF fl_num [where n = 53 and m = 4913017775313269]])
     (simp_all add: rne_def Let_def)

lemma fl_sum: "fl (2763572498613713 / 1125899906842624 + 4913017775313269 / 9007199254740992)
             = 6755399441055743 / 2251799813685248"
  by (rule trans [OF fl_num [where n = 51 and m = 6755399441055743]])
     (simp_all add: rne_def Let_def)

lemma fl_weights: "fl (3684763331484951 / 4503599627370496 + 3275345183542179 / 18014398509481984) = 1"
  by (rule trans [OF fl_num [where n = 53 and m = 9007199254740992]])
     (simp_all add: rne_def Let_def)

lemma fl_quotient: "fl (6755399441055743 / 2251799813685248) = 6755399441055743 / 2251799813685248"
  by (rule trans [OF fl_num [where n = 51 and m = 6755399441055743]])
     (simp_all add: rne_def Let_def)

lemma ewm64_example:
  "ewm64_values 10 [3, 3 + 1 / 2 ^ 51] = [3, 3 - 1 / 2 ^ 51]"
proof -
  have new_term: "fl (3275345183542179 / 18014398509481984 * (3 + 1 / 2 ^ 51))
             = 4913017775313269 / 9007199254740992" by (rule fl_new_term)
  have "(9 :: real) / 2 = (10 - 1) / 2" by simp
  have v: "(3 - 1 / 2 ^ 51 :: real) = 6755399441055743 / 2251799813685248" by simp
  have ne: "(3 :: real) \<noteq> 3 + 1 / 2 ^ 51" by simp
  have com: "fl ((real_of_int 10 - 1) / 2) = 9 / 2" using fl_com by simp
  have one: "fl (1 + 9 / 2) = 11 / 2" using fl_one_plus_com by simp
  have alpha: "fl (1 / (11 / 2)) = 3275345183542179 / 18014398509481984" using fl_alpha by simp
  have p1: "fl (1 * (3684763331484951 / 4503599627370496) * 3)
      = 2763572498613713 / 1125899906842624" using fl_old_term by simp
  have s: "fl (1 * (3684763331484951 / 4503599627370496) + 3275345183542179 / 18014398509481984)
      = 1" using fl_weights by simp
  have q: "fl (6755399441055743 / 2251799813685248 / 1) = 6755399441055743 / 2251799813685248"
    using fl_quotient by simp
  show ?thesis
    unfolding ewm64_values_def Let_def com one alpha fl_old_wt_factor list.case ewm64_loop.simps
      p1 new_term fl_sum s q v
    using ne by (simp only: if_True simp_thms)
qed

text \<open>
  One step of the loop against the exact weighted mean of the same two numbers: the four
  roundings and the division move the result by at most \<open>2^-50\<close> times a bound of the
  magnitudes.
\<close>

lemma ewm64_step_error:
  fixes a b w x M :: real
  assumes a: "0 \<le> a" and b: "0 < b" and w: "\<bar>w\<bar> \<le> M" and x: "\<bar>x\<bar> \<le> M"
  shows "\<bar>fl (fl (fl (a * w) + fl (b * x)) / fl (a + b)) - (a * w + b * x) / (a + b)\<bar>
         \<le> M / 2 ^ 50"
proof -
  define u :: real where "u = 1 / 2 ^ 53"
  have u: "0 < u" "u < 1" by (simp_all add: u_def)
  have err: "\<bar>fl y - y\<bar> \<le> u * \<bar>y\<bar>" for y
    using fl_abs_error [of y] by (simp add: u_def)
  define c where "c = a + b"
  define z where "z = a * w + b * x"
  define p where "p = fl (a * w) + fl (b * x)"
  define t where "t = fl p"
  define s where "s = fl c"
  define r where "r = t / s"
  define q where "q = fl r"
  have c: "0 < c" using a b by (simp add: c_def)
  have M: "0 \<le> M" using w by linarith
  have cM: "0 \<le> c * M" using c M by simp
  have aw: "\<bar>a * w\<bar> \<le> a * M" using a w by (simp add: abs_mult mult_left_mono)
  have bx: "\<bar>b * x\<bar> \<le> b * M" using b x by (simp add: abs_mult)
  have z: "\<bar>z\<bar> \<le> c * M"
  proof -
    have "\<bar>z\<bar> \<le> \<bar>a * w\<bar> + \<bar>b * x\<bar>" unfolding z_def by (rule abs_triangle_ineq)
    also have "\<dots> \<le> a * M + b * M" using aw bx by (rule add_mono)
    finally show ?thesis by (simp add: c_def algebra_simps)
  qed
  have pz: "\<bar>p - z\<bar> \<le> u * (c * M)"
  proof -
    have "\<bar>p - z\<bar> = \<bar>(fl (a * w) - a * w) + (fl (b * x) - b * x)\<bar>"
      by (simp add: p_def z_def)
    also have "\<dots> \<le> \<bar>fl (a * w) - a * w\<bar> + \<bar>fl (b * x) - b * x\<bar>"
      by (rule abs_triangle_ineq)
    also have "\<dots> \<le> u * \<bar>a * w\<bar> + u * \<bar>b * x\<bar>" by (intro add_mono err)
    also have "\<dots> \<le> u * (a * M) + u * (b * M)"
      using aw bx u(1) by (intro add_mono mult_left_mono) simp_all
    finally show ?thesis by (simp add: c_def algebra_simps)
  qed
  have p: "\<bar>p\<bar> \<le> (1 + u) * (c * M)"
  proof -
    have "\<bar>p\<bar> \<le> \<bar>p - z\<bar> + \<bar>z\<bar>" by linarith
    also have "\<dots> \<le> u * (c * M) + c * M" using pz z by (rule add_mono)
    finally show ?thesis by (simp add: algebra_simps)
  qed
  have tp: "\<bar>t - p\<bar> \<le> u * ((1 + u) * (c * M))"
  proof -
    have "\<bar>t - p\<bar> \<le> u * \<bar>p\<bar>" unfolding t_def by (rule err)
    also have "\<dots> \<le> u * ((1 + u) * (c * M))" using p u(1) by (intro mult_left_mono) simp_all
    finally show ?thesis .
  qed
  have tz: "\<bar>t - z\<bar> \<le> (2 * u + u * u) * (c * M)"
  proof -
    have "\<bar>t - z\<bar> \<le> \<bar>t - p\<bar> + \<bar>p - z\<bar>" by linarith
    also have "\<dots> \<le> u * ((1 + u) * (c * M)) + u * (c * M)" using tp pz by (rule add_mono)
    finally show ?thesis by (simp add: algebra_simps)
  qed
  have t: "\<bar>t\<bar> \<le> (1 + u) * (1 + u) * (c * M)"
  proof -
    have "\<bar>t\<bar> \<le> \<bar>t - p\<bar> + \<bar>p\<bar>" by linarith
    also have "\<dots> \<le> u * ((1 + u) * (c * M)) + (1 + u) * (c * M)" using tp p by (rule add_mono)
    finally show ?thesis by (simp add: algebra_simps)
  qed
  have sc: "\<bar>s - c\<bar> \<le> u * c" using err [of c] c by (simp add: s_def)
  then have s: "(1 - u) * c \<le> s" by (simp add: algebra_simps abs_le_iff)
  have s1: "0 < (1 - u) * c" using u c by simp
  with s have s0: "0 < s" by linarith
  define v where "v = z / c"
  have rv: "\<bar>r - v\<bar> \<le> (3 * u + u * u) * M / (1 - u)"
  proof -
    have "r - v = ((t - z) * c + z * (c - s)) / (s * c)"
      using s0 c by (simp add: r_def v_def field_simps)
    then have "\<bar>r - v\<bar> = \<bar>(t - z) * c + z * (c - s)\<bar> / (s * c)"
      using s0 c by (simp add: abs_mult)
    also have "\<dots> \<le> ((3 * u + u * u) * (c * M) * c) / (s * c)"
    proof (intro divide_right_mono)
      have "\<bar>(t - z) * c + z * (c - s)\<bar> \<le> \<bar>(t - z) * c\<bar> + \<bar>z * (c - s)\<bar>"
        by (rule abs_triangle_ineq)
      also have "\<dots> = \<bar>t - z\<bar> * c + \<bar>z\<bar> * \<bar>s - c\<bar>"
        using c by (simp add: abs_mult abs_minus_commute)
      also have "\<dots> \<le> (2 * u + u * u) * (c * M) * c + (c * M) * (u * c)"
        using tz z sc c cM by (intro add_mono mult_mono) simp_all
      finally show "\<bar>(t - z) * c + z * (c - s)\<bar> \<le> (3 * u + u * u) * (c * M) * c"
        by (simp add: algebra_simps)
      show "0 \<le> s * c" using s0 c by simp
    qed
    also have "\<dots> = (3 * u + u * u) * M * (c / s)" using c s0 by (simp add: field_simps)
    also have "\<dots> \<le> (3 * u + u * u) * M * (1 / (1 - u))"
    proof (intro mult_left_mono)
      have "c / s \<le> c / ((1 - u) * c)" using s s1 c by (intro divide_left_mono) simp_all
      also have "\<dots> = 1 / (1 - u)" using c by simp
      finally show "c / s \<le> 1 / (1 - u)" .
      show "0 \<le> (3 * u + u * u) * M" using u M by simp
    qed
    finally show ?thesis by simp
  qed
  have r: "\<bar>r\<bar> \<le> (1 + u) * (1 + u) * M / (1 - u)"
  proof -
    have "\<bar>r\<bar> = \<bar>t\<bar> / s" using s0 by (simp add: r_def)
    also have "\<dots> \<le> ((1 + u) * (1 + u) * (c * M)) / ((1 - u) * c)"
      using t s s1 cM u by (intro frac_le) simp_all
    also have "\<dots> = (1 + u) * (1 + u) * M / (1 - u)" using c by simp
    finally show ?thesis .
  qed
  have qr: "\<bar>q - r\<bar> \<le> u * ((1 + u) * (1 + u) * M / (1 - u))"
  proof -
    have "\<bar>q - r\<bar> \<le> u * \<bar>r\<bar>" unfolding q_def by (rule err)
    also have "\<dots> \<le> u * ((1 + u) * (1 + u) * M / (1 - u))"
      using r u(1) by (intro mult_left_mono) simp_all
    finally show ?thesis .
  qed
  have "\<bar>q - v\<bar> \<le> \<bar>q - r\<bar> + \<bar>r - v\<bar>" by linarith
  also have "\<dots> \<le> u * ((1 + u) * (1 + u) * M / (1 - u)) + (3 * u + u * u) * M / (1 - u)"
    using qr rv by (rule add_mono)
  also have "\<dots> = M * ((u * ((1 + u) * (1 + u)) + (3 * u + u * u)) / (1 - u))"
    by (simp add: algebra_simps add_divide_distrib)
  also have "\<dots> \<le> M * (1 / 2 ^ 50)"
  proof (intro mult_left_mono M)
    show "(u * ((1 + u) * (1 + u)) + (3 * u + u * u)) / (1 - u) \<le> 1 / 2 ^ 50"
      by (simp add: u_def)
  qed
  finally show ?thesis
    by (simp add: q_def r_def t_def p_def s_def v_def z_def c_def)
qed

lemma length_ewm64_loop: "length (ewm64_loop a b w xs) = length xs"
  by (induction xs arbitrary: w) (simp_all add: Let_def)

lemma ewm64_weights:
  assumes "1 \<le> w"
  shows "0 < fl (1 / fl (1 + fl ((real_of_int w - 1) / 2)))"
        "0 \<le> fl (1 - fl (1 / fl (1 + fl ((real_of_int w - 1) / 2))))"
proof -
  let ?com = "fl ((real_of_int w - 1) / 2)"
  have "0 \<le> ?com" using assms by (intro fl_nonneg) simp
  then have "1 \<le> fl (1 + ?com)" by (intro fl_ge_1) simp
  then have r: "0 < 1 / fl (1 + ?com)" "1 / fl (1 + ?com) \<le> 1" by simp_all
  from r(1) show a: "0 < fl (1 / fl (1 + ?com))" by (rule fl_positive)
  from r have "fl (1 / fl (1 + ?com)) \<le> 1" by (rule fl_le_1)
  then show "0 \<le> fl (1 - fl (1 / fl (1 + ?com)))" by (intro fl_nonneg) simp
qed

lemma weighted_mean_range:
  fixes a b w x L H :: real
  assumes "0 \<le> a" "0 < b" "L \<le> w" "w \<le> H" "L \<le> x" "x \<le> H"
  shows "L \<le> (a * w + b * x) / (a + b)" "(a * w + b * x) / (a + b) \<le> H"
proof -
  have c: "0 < a + b" using assms(1,2) by linarith
  have "a * L \<le> a * w" "b * L \<le> b * x" "a * w \<le> a * H" "b * x \<le> b * H"
    using assms by (simp_all add: mult_left_mono)
  then have "L * (a + b) \<le> a * w + b * x" "a * w + b * x \<le> H * (a + b)"
    by (simp_all add: algebra_simps)
  with c show "L \<le> (a * w + b * x) / (a + b)" "(a * w + b * x) / (a + b) \<le> H"
    by (simp_all add: pos_le_divide_eq pos_divide_le_eq)
qed

lemma ewm64_loop_bounds:
  fixes lo hi B :: real
  assumes a: "0 \<le> a" and b: "0 < b"
    and xs: "\<forall>x\<in>set xs. lo \<le> x \<and> x \<le> hi"
    and B: "\<bar>lo\<bar> \<le> B" "\<bar>hi\<bar> \<le> B"
    and w: "lo - B * ((1 + 1 / 2 ^ 50) ^ k - 1) \<le> w" "w \<le> hi + B * ((1 + 1 / 2 ^ 50) ^ k - 1)"
    and i: "i < length xs"
  shows "lo - B * ((1 + 1 / 2 ^ 50) ^ (k + Suc i) - 1) \<le> ewm64_loop a b w xs ! i \<and>
         ewm64_loop a b w xs ! i \<le> hi + B * ((1 + 1 / 2 ^ 50) ^ (k + Suc i) - 1)"
  using xs w i
proof (induction xs arbitrary: w k i)
  case Nil
  then show ?case by simp
next
  case (Cons x xs)
  define u :: real where "u = 1 + 1 / 2 ^ 50"
  have u: "1 \<le> u" by (simp add: u_def)
  have B0: "0 \<le> B" using B(1) by linarith
  have uk: "1 \<le> u ^ k" using u by (rule one_le_power)
  define d where "d = B * (u ^ k - 1)"
  have d0: "0 \<le> d" unfolding d_def using B0 uk by (intro mult_nonneg_nonneg) simp_all
  define M where "M = B * u ^ k"
  have BM: "B + d = M" by (simp add: d_def M_def algebra_simps)
  from Cons.prems(1) have x: "lo \<le> x" "x \<le> hi" by simp_all
  from Cons.prems(2,3) have w: "lo - d \<le> w" "w \<le> hi + d" by (simp_all add: d_def u_def)
  have wM: "\<bar>w\<bar> \<le> M" using w B BM by linarith
  have xM: "\<bar>x\<bar> \<le> M" using x B BM d0 by linarith
  have next_d: "d + M / 2 ^ 50 = B * (u ^ Suc k - 1)"
    by (simp add: d_def M_def u_def algebra_simps)
  define w' where "w' = (if w \<noteq> x
      then fl (fl (fl (1 * a * w) + fl (b * x)) / fl (1 * a + b)) else w)"
  have M0: "0 \<le> M" using wM by linarith
  have step: "lo - (d + M / 2 ^ 50) \<le> w' \<and> w' \<le> hi + (d + M / 2 ^ 50)"
  proof (cases "w = x")
    case True
    have "0 \<le> M / 2 ^ 50" using M0 by simp
    with True w show ?thesis by (simp add: w'_def)
  next
    case False
    let ?v = "(a * w + b * x) / (a + b)"
    have xr: "lo - d \<le> x" "x \<le> hi + d" using x d0 by linarith+
    from weighted_mean_range [OF a b w(1) w(2) xr]
    have v: "lo - d \<le> ?v" "?v \<le> hi + d" .
    from ewm64_step_error [OF a b wM xM]
    have "\<bar>fl (fl (fl (a * w) + fl (b * x)) / fl (a + b)) - ?v\<bar> \<le> M / 2 ^ 50" .
    with v have "lo - (d + M / 2 ^ 50) \<le> fl (fl (fl (a * w) + fl (b * x)) / fl (a + b)) \<and>
      fl (fl (fl (a * w) + fl (b * x)) / fl (a + b)) \<le> hi + (d + M / 2 ^ 50)"
      by linarith
    with False show ?thesis by (simp add: w'_def)
  qed
  then have w': "lo - B * (u ^ Suc k - 1) \<le> w'" "w' \<le> hi + B * (u ^ Suc k - 1)"
    unfolding next_d by simp_all
  have loop: "ewm64_loop a b w (x # xs) = w' # ewm64_loop a b w' xs"
    by (simp add: w'_def Let_def)
  show ?case
    unfolding loop u_def [symmetric]
  proof (cases i)
    case 0
    with w' show "lo - B * (u ^ (k + Suc i) - 1) \<le> (w' # ewm64_loop a b w' xs) ! i \<and>
      (w' # ewm64_loop a b w' xs) ! i \<le> hi + B * (u ^ (k + Suc i) - 1)" by simp
  next
    case (Suc j)
    with Cons.prems(4) have j: "j < length xs" by simp
    from Cons.prems(1) have "\<forall>x\<in>set xs. lo \<le> x \<and> x \<le> hi" by simp
    from Cons.IH [folded u_def, OF this w' j]
    show "lo - B * (u ^ (k + Suc i) - 1) \<le> (w' # ewm64_loop a b w' xs) ! i \<and>
      (w' # ewm64_loop a b w' xs) ! i \<le> hi + B * (u ^ (k + Suc i) - 1)" by (simp add: Suc)
  qed
qed

lemma length_ewm64_values: "length (ewm64_values w xs) = length xs"
  by (cases xs) (simp_all add: ewm64_values_def Let_def length_ewm64_loop)

lemma ewm64_values_nth_0: "xs \<noteq> [] \<Longrightarrow> ewm64_values w xs ! 0 = xs ! 0"
  by (cases xs) (simp_all add: ewm64_values_def Let_def)

lemma ewm64_values_bounds:
  assumes w: "1 \<le> w" and i: "i < length closes"
  shows "Min (set closes) - rounding_slack closes i \<le> ewm64_values w closes ! i \<and>
         ewm64_values w closes ! i \<le> Max (set closes) + rounding_slack closes i"
proof (cases closes)
  case Nil
  with i show ?thesis by simp
next
  case (Cons x xs)
  let ?lo = "Min (set closes)" and ?hi = "Max (set closes)"
  define B where "B = Max (abs ` set closes)"
  define b where "b = fl (1 / fl (1 + fl ((real_of_int w - 1) / 2)))"
  define a where "a = fl (1 - b)"
  from ewm64_weights [OF w] have b: "0 < b" and a: "0 \<le> a" by (simp_all add: a_def b_def)
  have vals: "ewm64_values w closes = x # ewm64_loop a b x xs"
    by (simp add: ewm64_values_def Let_def Cons a_def b_def)
  have ne: "closes \<noteq> []" using Cons by simp
  then have "set closes \<noteq> {}" by simp
  then have "?lo \<in> set closes" "?hi \<in> set closes" by (intro Min_in Max_in; simp)+
  then have B: "\<bar>?lo\<bar> \<le> B" "\<bar>?hi\<bar> \<le> B" unfolding B_def by (simp_all add: Max_ge)
  have range: "\<forall>c\<in>set closes. ?lo \<le> c \<and> c \<le> ?hi" by simp
  then have x: "?lo \<le> x" "x \<le> ?hi" and xs: "\<forall>c\<in>set xs. ?lo \<le> c \<and> c \<le> ?hi"
    using Cons by simp_all
  show ?thesis
  proof (cases i)
    case 0
    with x show ?thesis by (simp add: vals rounding_slack_def)
  next
    case (Suc j)
    with i Cons have j: "j < length xs" by simp
    from x have "?lo - B * ((1 + 1 / 2 ^ 50) ^ 0 - 1) \<le> x" "x \<le> ?hi + B * ((1 + 1 / 2 ^ 50) ^ 0 - 1)"
      by simp_all
    from ewm64_loop_bounds [OF a b xs B this j] show ?thesis
      unfolding vals Suc rounding_slack_def B_def by simp
  qed
qed

section \<open>Facts about the columns and the result of the backtest\<close>

lemma length_shift1: "length (shift1 xs) = length xs"
  by (simp add: shift1_def)

lemma shift1_nth_0: "xs \<noteq> [] \<Longrightarrow> shift1 xs ! 0 = NaN"
  by (simp add: shift1_def)

lemma shift1_nth_Suc: "Suc i < length xs \<Longrightarrow> shift1 xs ! Suc i = xs ! i"
  by (auto simp: shift1_def nth_butlast)

lemma length_cumprod_from: "length (cumprod_from acc xs) = length xs"
  by (induction xs arbitrary: acc) simp_all

lemma length_signal_col:
  "length (signal_col (ewm_values a xs) (ewm_values b xs)) = length xs"
  by (simp add: signal_col_def length_ewm_values)

lemma length_position_col: "length (position_col sig) = length sig"
  by (simp add: position_col_def length_shift1)

lemma length_return_col: "length (return_col closes) = length closes"
  by (simp add: return_col_def pct_change_def length_shift1)

lemma length_cum_value: "length (cum_value rets cash) = length rets"
  by (simp add: cum_value_def cumprod_def length_cumprod_from)

lemma length_strategy_return_col:
  "length (strategy_return_col ret pos) = min (length ret) (length pos)"
  by (simp add: strategy_return_col_def)

lemma columns_sel [simp]:
  "Close (columns closes es el cash) = closes"
  "EMA_short (columns closes es el cash) = es"
  "EMA_long (columns closes es el cash) = el"
  "Signal (columns closes es el cash) = signal_col es el"
  "Position (columns closes es el cash) = position_col (signal_col es el)"
  "Return (columns closes es el cash) = return_col closes"
  "Strategy_Return (columns closes es el cash) =
     strategy_return_col (return_col closes) (position_col (signal_col es el))"
  "Portfolio_Value (columns closes es el cash) =
     cum_value (strategy_return_col (return_col closes) (position_col (signal_col es el))) cash"
  "Buy_Hold_Value (columns closes es el cash) = cum_value (return_col closes) cash"
  by (simp_all add: columns_def Let_def)

lemma metrics_Inr_iff:
  "metrics d cash = Inr m \<longleftrightarrow>
     Portfolio_Value d \<noteq> [] \<and> Buy_Hold_Value d \<noteq> [] \<and>
     m = \<lparr> data = d,
           total_return = pct_of_cash (last (Portfolio_Value d)) cash,
           buyhold_return = pct_of_cash (last (Buy_Hold_Value d)) cash,
           sharpe_ratio = sharpe_of (Strategy_Return d) \<rparr>"
  by (auto simp: metrics_def iloc_last_def)

lemma metrics_columns:
  assumes "closes \<noteq> []"
  shows "\<exists>m. metrics (ema_columns closes sw lw cash) cash = Inr m \<and>
             data m = ema_columns closes sw lw cash \<and>
             sharpe_ratio m = sharpe_of (Strategy_Return (ema_columns closes sw lw cash))"
proof -
  let ?d = "ema_columns closes sw lw cash"
  have "length (Portfolio_Value ?d) = length closes"
    by (simp add: ema_columns_def length_cum_value length_strategy_return_col length_return_col
        length_position_col length_signal_col)
  moreover have "length (Buy_Hold_Value ?d) = length closes"
    by (simp add: ema_columns_def length_cum_value length_return_col)
  ultimately have "Portfolio_Value ?d \<noteq> []" "Buy_Hold_Value ?d \<noteq> []"
    using assms by auto
  then show ?thesis by (simp add: metrics_Inr_iff)
qed

lemma backtest_success:
  assumes "1 \<le> sw" "1 \<le> lw" "closes \<noteq> []"
  shows "\<exists>m. ema_crossover_backtest closes sw lw cash = Inr m \<and>
             data m = ema_columns closes sw lw cash \<and>
             sharpe_ratio m = sharpe_of (Strategy_Return (ema_columns closes sw lw cash))"
  using assms metrics_columns [OF assms(3), of sw lw cash]
  by (simp add: ema_crossover_backtest_def ewm_mean_def ema_columns_def)

lemma backtest_InrD:
  assumes "ema_crossover_backtest closes sw lw cash = Inr m"
  shows "1 \<le> sw \<and> 1 \<le> lw \<and> closes \<noteq> [] \<and> data m = ema_columns closes sw lw cash"
proof -
  from assms have w: "1 \<le> sw" "1 \<le> lw"
    by (auto simp: ema_crossover_backtest_def ewm_mean_def split: if_splits)
  with assms have m: "metrics (ema_columns closes sw lw cash) cash = Inr m"
    by (simp add: ema_crossover_backtest_def ewm_mean_def ema_columns_def)
  then have "data m = ema_columns closes sw lw cash" "Buy_Hold_Value (ema_columns closes sw lw cash) \<noteq> []"
    by (simp_all add: metrics_Inr_iff)
  moreover from this(2) have "closes \<noteq> []"
    by (auto simp: ema_columns_def cum_value_def cumprod_def return_col_def pct_change_def shift1_def)
  ultimately show ?thesis using w by simp
qed

lemma backtest_errors:
  "sw < 1 \<or> lw < 1 \<Longrightarrow> ema_crossover_backtest closes sw lw cash = Inl ValueError"
  "1 \<le> sw \<Longrightarrow> 1 \<le> lw \<Longrightarrow> ema_crossover_backtest [] sw lw cash = Inl IndexError"
  by (auto simp: ema_crossover_backtest_def ewm_mean_def metrics_def iloc_last_def
      cum_value_def cumprod_def strategy_return_col_def return_col_def pct_change_def
      shift1_def)

text \<open>
  The backtest of \<open>main.py\<close> computes the frame and the three metrics as the one of
  \<open>app.py\<close> does: whenever it returns, the other returns the same frame and metrics, so
  the statements below about the columns hold for both scripts.
\<close>

lemma main_agrees_with_app:
  assumes "ema_crossover_backtest_main bars sw lw cash = Inr r"
  shows "ema_crossover_backtest (map snd bars) sw lw cash = Inr (app_result.truncate r)"
  using assms
  by (auto simp: ema_crossover_backtest_main_def ema_crossover_backtest_def Let_def
      app_result.defs main_result.defs split: sum.splits)

section \<open>The moving averages (claims C8 and C9)\<close>




text \<open>
  Claim C9, as amended. For every window pair with the short window below the long one
  and every non-empty close series, the two moving averages that \<open>ewm\<close> computes in 64-bit
  floating point have one value per bar and start at the first close, and their value at
  bar \<open>i\<close> lies between the least and the greatest close up to rounding: within
  \<open>[min(close) - s, max(close) + s]\<close> for \<open>s = max |close| * ((1 + 2^-50)^i - 1)\<close>. The
  closed interval itself holds of the exact weighted means only: a rounded value can
  leave it by a unit in the last place.
\<close>
theorem ema_within_close_range_up_to_rounding:
  assumes "short_window < long_window" "closes \<noteq> []"
    and "ewm64_mean short_window closes = Inr ema_short"
    and "ewm64_mean long_window closes = Inr ema_long"
  shows "length ema_short = length closes \<and> length ema_long = length closes \<and>
    ema_short ! 0 = closes ! 0 \<and> ema_long ! 0 = closes ! 0 \<and>
    (\<forall>i<length closes.
       Min (set closes) - rounding_slack closes i \<le> ema_short ! i \<and>
       ema_short ! i \<le> Max (set closes) + rounding_slack closes i \<and>
       Min (set closes) - rounding_slack closes i \<le> ema_long ! i \<and>
       ema_long ! i \<le> Max (set closes) + rounding_slack closes i) \<and>
    rounding_slack closes 0 = 0 \<and>
    (\<forall>i. rounding_slack closes i = Max (abs ` set closes) * ((1 + 1 / 2 ^ 50) ^ i - 1))"
proof -
  from assms(3) have s: "1 \<le> short_window" "ema_short = ewm64_values short_window closes"
    by (auto simp: ewm64_mean_def split: if_splits)
  from assms(4) have l: "1 \<le> long_window" "ema_long = ewm64_values long_window closes"
    by (auto simp: ewm64_mean_def split: if_splits)
  have "\<forall>i<length closes.
       Min (set closes) - rounding_slack closes i \<le> ema_short ! i \<and>
       ema_short ! i \<le> Max (set closes) + rounding_slack closes i \<and>
       Min (set closes) - rounding_slack closes i \<le> ema_long ! i \<and>
       ema_long ! i \<le> Max (set closes) + rounding_slack closes i"
    using ewm64_values_bounds [OF s(1)] ewm64_values_bounds [OF l(1)]
    unfolding s(2) l(2) by blast
  then show ?thesis
    using assms(2)
    by (simp add: s(2) l(2) length_ewm64_values ewm64_values_nth_0 rounding_slack_def)
qed

theorem ema_within_close_range_up_to_rounding_witness:
  "(10::int) < 20 \<and> [3, 3 + 1 / 2 ^ 51 :: real] \<noteq> [] \<and>
   ewm64_mean 10 [3, 3 + 1 / 2 ^ 51] = Inr [3, 3 - 1 / 2 ^ 51] \<and>
   rounding_slack [3, 3 + 1 / 2 ^ 51] 1 = (3 + 1 / 2 ^ 51) / 2 ^ 50 \<and>
   Min (set [3, 3 + 1 / 2 ^ 51]) - rounding_slack [3, 3 + 1 / 2 ^ 51] 1
     \<le> (3 - 1 / 2 ^ 51 :: real) \<and>
   (3 - 1 / 2 ^ 51 :: real)
     \<le> Max (set [3, 3 + 1 / 2 ^ 51]) + rounding_slack [3, 3 + 1 / 2 ^ 51] 1"
proof -
  let ?cs = "[3, 3 + 1 / 2 ^ 51 :: real]"
  have es: "ewm64_mean 10 ?cs = Inr [3, 3 - 1 / 2 ^ 51]"
    unfolding ewm64_mean_def ewm64_example by simp
  have el: "ewm64_mean 20 ?cs = Inr (ewm64_values 20 ?cs)"
    by (simp add: ewm64_mean_def)
  have lt: "(10::int) < 20" and ne: "?cs \<noteq> []" by simp_all
  have "(1::nat) < length ?cs" by simp
  with ema_within_close_range_up_to_rounding [OF lt ne es el]
  have "Min (set ?cs) - rounding_slack ?cs 1 \<le> [3, 3 - 1 / 2 ^ 51] ! 1 \<and>
        [3, 3 - 1 / 2 ^ 51] ! 1 \<le> Max (set ?cs) + rounding_slack ?cs 1"
    by blast
  then have "Min (set ?cs) - rounding_slack ?cs 1 \<le> (3 - 1 / 2 ^ 51 :: real) \<and>
        (3 - 1 / 2 ^ 51 :: real) \<le> Max (set ?cs) + rounding_slack ?cs 1"
    by (simp only: nth_Cons_Suc nth_Cons_0 One_nat_def)
  moreover have "rounding_slack ?cs 1 = (3 + 1 / 2 ^ 51) / 2 ^ 50"
    by (simp add: rounding_slack_def)
  ultimately show ?thesis using es by simp
qed

theorem ema_leaves_close_range_counterexample:
  "ewm64_mean 10 [3, 3 + 1 / 2 ^ 51] = Inr [3, 3 - 1 / 2 ^ 51] \<and>
   Min (set [3, 3 + 1 / 2 ^ 51 :: real]) = 3 \<and> (3 - 1 / 2 ^ 51 :: real) < 3"
  unfolding ewm64_mean_def ewm64_example by simp

section \<open>Signal and position (claims C1 and C10)\<close>

lemma signal_col_first:
  "xs \<noteq> [] \<Longrightarrow> signal_col (ewm_values a xs) (ewm_values b xs) ! 0 = 0"
  by (cases xs) (simp_all add: signal_col_def)

lemma position_col_nth_0: "sig \<noteq> [] \<Longrightarrow> position_col sig ! 0 = NaN"
  by (simp add: position_col_def shift1_nth_0)

lemma position_col_nth_Suc:
  "Suc i < length sig \<Longrightarrow> position_col sig ! Suc i = Fin (of_int (sig ! i))"
  by (simp add: position_col_def shift1_nth_Suc)

lemma length_ema_columns:
  "length (Signal (ema_columns closes sw lw cash)) = length closes"
  "length (Position (ema_columns closes sw lw cash)) = length closes"
  "length (Return (ema_columns closes sw lw cash)) = length closes"
  "length (Strategy_Return (ema_columns closes sw lw cash)) = length closes"
  "length (Portfolio_Value (ema_columns closes sw lw cash)) = length closes"
  "length (Buy_Hold_Value (ema_columns closes sw lw cash)) = length closes"
  by (simp_all add: ema_columns_def length_position_col length_signal_col length_return_col
      length_strategy_return_col length_cum_value)

text \<open>
  Claim C1, as amended. For every close series of at least two bars and every window pair
  \<open>1 \<le> short < long\<close>, the position at every bar \<open>i \<ge> 1\<close> is the signal of bar
  \<open>i - 1\<close>; the position of the first bar is NaN (the shift leaves it missing), not 0.
\<close>
theorem position_lags_signal:
  assumes "2 \<le> length closes" "1 \<le> short_window" "short_window < long_window"
  shows "\<exists>m. ema_crossover_backtest closes short_window long_window initial_cash = Inr m \<and>
    Position (data m) ! 0 = NaN \<and>
    (\<forall>i. 1 \<le> i \<and> i < length closes \<longrightarrow>
         Position (data m) ! i = Fin (of_int (Signal (data m) ! (i - 1))))"
proof -
  from assms have ne: "closes \<noteq> []" and lw: "1 \<le> long_window" by auto
  from backtest_success [OF assms(2) lw ne, of initial_cash] obtain m where
    m: "ema_crossover_backtest closes short_window long_window initial_cash = Inr m"
       "data m = ema_columns closes short_window long_window initial_cash"
    by blast
  let ?sig = "signal_col (ewm_values (span_alpha short_window) closes)
                (ewm_values (span_alpha long_window) closes)"
  have len: "length ?sig = length closes" by (rule length_signal_col)
  with ne have "?sig \<noteq> []" by auto
  then have p0: "Position (data m) ! 0 = NaN"
    using m(2) by (simp add: ema_columns_def position_col_nth_0)
  have "Position (data m) ! i = Fin (of_int (Signal (data m) ! (i - 1)))"
    if "1 \<le> i \<and> i < length closes" for i
  proof -
    from that obtain j where j: "i = Suc j" by (cases i) auto
    with that len have "Suc j < length ?sig" by simp
    from position_col_nth_Suc [OF this] j m(2) show ?thesis
      by (simp add: ema_columns_def)
  qed
  with m(1) p0 show ?thesis by blast
qed

theorem position_lags_signal_witness:
  "2 \<le> length [10, 11, 9 :: real] \<and> (1::int) \<le> 2 \<and> (2::int) < 4 \<and>
   map_sum id (Signal \<circ> data) (ema_crossover_backtest [10, 11, 9] 2 4 10000)
     = Inr [0, 1, 0] \<and>
   map_sum id (Position \<circ> data) (ema_crossover_backtest [10, 11, 9] 2 4 10000)
     = Inr [NaN, Fin 0, Fin 1]"
proof -
  from position_lags_signal [of "[10, 11, 9]" 2 4 10000] obtain m where
    m: "ema_crossover_backtest [10, 11, 9] 2 4 10000 = Inr m"
    and p: "Position (data m) ! 0 = NaN"
       "\<And>i. 1 \<le> i \<and> i < 3 \<Longrightarrow> Position (data m) ! i = Fin (of_int (Signal (data m) ! (i - 1)))"
    by auto
  from backtest_InrD [OF m] have d: "data m = ema_columns [10, 11, 9] 2 4 10000"
    by simp
  then have s: "Signal (data m) = [0, 1, 0]"
    by (simp add: ema_columns_def span_alpha_def signal_col_def)
  have three: "length xs = 3 \<Longrightarrow> xs = [xs ! 0, xs ! 1, xs ! 2]" for xs :: "f64 list"
    by (cases xs; cases "tl xs"; cases "tl (tl xs)") auto
  have "length (Position (data m)) = 3"
    unfolding d by (simp add: length_ema_columns)
  from three [OF this] p(1) p(2) [of 1] p(2) [of 2] s
  have "Position (data m) = [NaN, Fin 0, Fin 1]" by simp
  with m s show ?thesis by simp
qed

theorem position_first_bar_counterexample:
  "map_sum id (Position \<circ> data) (ema_crossover_backtest [10, 11, 9] 2 4 10000)
     = Inr [NaN, Fin 0, Fin 1] \<and>
   [NaN, Fin 0, Fin 1] ! 0 \<noteq> Fin 0"
  by (simp add: ema_crossover_backtest_def ewm_mean_def metrics_def iloc_last_def
      cum_value_def cumprod_def span_alpha_def signal_col_def position_col_def shift1_def
      return_col_def pct_change_def strategy_return_col_def fsub_def)

text \<open>
  Claim C10. For every non-empty close series and every window pair \<open>1 \<le> short < long\<close>,
  both moving averages start at the first close, so the first signal is 0 and the
  position of the second bar is 0; the position of the first bar is not 1 either. The
  strategy holds nothing on the first two bars.
\<close>
theorem no_position_on_first_two_bars:
  assumes "closes \<noteq> []" "1 \<le> short_window" "short_window < long_window"
  shows "\<exists>m. ema_crossover_backtest closes short_window long_window initial_cash = Inr m \<and>
    EMA_short (data m) ! 0 = closes ! 0 \<and> EMA_long (data m) ! 0 = closes ! 0 \<and>
    Signal (data m) ! 0 = 0 \<and>
    Position (data m) ! 0 \<noteq> Fin 1 \<and>
    (2 \<le> length closes \<longrightarrow> Position (data m) ! 1 = Fin 0)"
proof -
  from assms have lw: "1 \<le> long_window" by auto
  from backtest_success [OF assms(2) lw assms(1), of initial_cash] obtain m where
    m: "ema_crossover_backtest closes short_window long_window initial_cash = Inr m"
       "data m = ema_columns closes short_window long_window initial_cash"
    by blast
  let ?sig = "signal_col (ewm_values (span_alpha short_window) closes)
                (ewm_values (span_alpha long_window) closes)"
  have len: "length ?sig = length closes" by (rule length_signal_col)
  have s0: "?sig ! 0 = 0" using assms(1) by (rule signal_col_first)
  from len assms(1) have "?sig \<noteq> []" by auto
  then have p0: "position_col ?sig ! 0 = NaN" by (rule position_col_nth_0)
  have p1: "position_col ?sig ! 1 = Fin 0" if "2 \<le> length closes"
  proof -
    from that len have "Suc 0 < length ?sig" by simp
    from position_col_nth_Suc [OF this] s0 show ?thesis by simp
  qed
  from m s0 p0 p1 assms(1) show ?thesis
    by (simp add: ema_columns_def ewm_values_nth_0)
qed

theorem no_position_on_first_two_bars_witness:
  "[10, 11, 9 :: real] \<noteq> [] \<and> (1::int) \<le> 2 \<and> (2::int) < 4 \<and>
   map_sum id (hd \<circ> Signal \<circ> data) (ema_crossover_backtest [10, 11, 9] 2 4 10000) = Inr 0 \<and>
   map_sum id (hd \<circ> tl \<circ> Position \<circ> data) (ema_crossover_backtest [10, 11, 9] 2 4 10000)
     = Inr (Fin 0)"
proof -
  from no_position_on_first_two_bars [of "[10, 11, 9]" 2 4 10000] obtain m where
    m: "ema_crossover_backtest [10, 11, 9] 2 4 10000 = Inr m"
    and p: "Signal (data m) ! 0 = 0" "Position (data m) ! 1 = Fin 0"
    by auto
  from backtest_InrD [OF m] have d: "data m = ema_columns [10, 11, 9] 2 4 10000"
    by simp
  have "length (Signal (data m)) = 3" "length (Position (data m)) = 3"
    unfolding d by (simp_all add: length_ema_columns)
  then have "hd (Signal (data m)) = Signal (data m) ! 0"
    "hd (tl (Position (data m))) = Position (data m) ! 1"
    by (cases "Signal (data m)"; cases "Position (data m)"; cases "tl (Position (data m))"; simp)+
  with p m show ?thesis by simp
qed

section \<open>Returns and cumulative values (claim C2)\<close>

lemma pct_change_tail:
  "0 \<notin> set (c # cs) \<Longrightarrow>
   map2 (\<lambda>x p. fsub (fdiv x p) (Fin 1)) (map Fin cs) (butlast (map Fin (c # cs)))
     = map Fin (map2 (\<lambda>x p. x / p - 1) cs (butlast (c # cs)))"
proof (induction cs arbitrary: c)
  case Nil
  then show ?case by simp
next
  case (Cons d ds)
  from Cons.prems have "0 \<notin> set (d # ds)" "c \<noteq> 0" by auto
  with Cons.IH [of d] show ?case by (simp add: fsub_def)
qed

lemma return_col_finite:
  assumes "0 \<notin> set closes" "closes \<noteq> []"
  shows "return_col closes = NaN # map Fin (raw_returns closes)"
proof -
  from assms(2) obtain c cs where c: "closes = c # cs" by (cases closes) auto
  with assms(1) pct_change_tail [of c cs] show ?thesis
    by (simp add: return_col_def pct_change_def shift1_def raw_returns_def fsub_def)
qed

lemma position_col_finite:
  "sig \<noteq> [] \<Longrightarrow> position_col sig = NaN # map Fin (map of_int (butlast sig))"
  by (simp add: position_col_def shift1_def map_butlast comp_def)

lemma strategy_return_col_finite:
  "strategy_return_col (NaN # map Fin rs) (NaN # map Fin ps) = NaN # map Fin (map2 (*) rs ps)"
proof -
  have "map2 fmul (map Fin rs) (map Fin ps) = map Fin (map2 (*) rs ps)"
  proof (induction rs arbitrary: ps)
    case Nil
    then show ?case by simp
  next
    case (Cons r rs)
    then show ?case by (cases ps) simp_all
  qed
  then show ?thesis by (simp add: strategy_return_col_def)
qed

lemma cumprod_from_finite:
  "i < length xs \<Longrightarrow>
   cumprod_from (Fin a) (map Fin xs) ! i = Fin (a * prod_list (take (Suc i) xs))"
proof (induction xs arbitrary: a i)
  case Nil
  then show ?case by simp
next
  case (Cons x xs)
  show ?case
  proof (cases i)
    case 0
    then show ?thesis by simp
  next
    case (Suc j)
    with Cons.prems have "j < length xs" by simp
    from Cons.IH [OF this, of "a * x"] Suc show ?thesis by (simp add: mult.assoc)
  qed
qed

lemma foldl_fmul_finite: "foldl fmul (Fin a) (map Fin xs) = Fin (a * prod_list xs)"
  by (induction xs arbitrary: a) (simp_all add: mult.assoc)

lemma cum_value_first: "cum_value (NaN # rets) cash ! 0 = NaN"
  by (simp add: cum_value_def cumprod_def)

lemma cum_value_finite:
  assumes "i < length rs"
  shows "cum_value (NaN # map Fin rs) cash ! Suc i
           = Fin (cash * prod_list (map (\<lambda>r. 1 + r) (take (Suc i) rs)))"
proof -
  have "cumprod (map (fadd (Fin 1)) (NaN # map Fin rs))
          = NaN # cumprod_from (Fin 1) (map Fin (map (\<lambda>r. 1 + r) rs))"
    by (simp add: cumprod_def comp_def)
  moreover have "cumprod_from (Fin 1) (map Fin (map (\<lambda>r. 1 + r) rs)) ! i
          = Fin (1 * prod_list (take (Suc i) (map (\<lambda>r. 1 + r) rs)))"
    using assms by (intro cumprod_from_finite) simp
  ultimately show ?thesis
    using assms by (simp add: cum_value_def length_cumprod_from take_map mult.commute)
qed

lemma spec_factors_finite:
  "i \<le> length rs \<Longrightarrow>
   map (\<lambda>k. fadd (Fin 1) ((NaN # map Fin rs) ! k)) [1..<Suc i]
     = map Fin (map (\<lambda>r. 1 + r) (take i rs))"
proof (induction i)
  case 0
  then show ?case by simp
next
  case (Suc i)
  then have i: "i < length rs" by simp
  have "[1..<Suc (Suc i)] = [1..<Suc i] @ [Suc i]" by simp
  with Suc.IH i show ?case
    by (simp add: take_Suc_conv_app_nth del: upt_Suc)
qed

lemma spec_cum_product_finite:
  assumes "i < length rs"
  shows "spec_cum_product (NaN # map Fin rs) cash (Suc i)
           = Fin (cash * prod_list (map (\<lambda>r. 1 + r) (take (Suc i) rs)))"
proof -
  from assms have "Suc i \<le> length rs" by simp
  from spec_factors_finite [OF this]
  have "spec_cum_product (NaN # map Fin rs) cash (Suc i)
          = fmul (Fin cash)
              (foldl fmul (Fin 1) (map Fin (map (\<lambda>r. 1 + r) (take (Suc i) rs))))"
    unfolding spec_cum_product_def by (simp only:)
  also have "\<dots> = Fin (cash * prod_list (map (\<lambda>r. 1 + r) (take (Suc i) rs)))"
    unfolding foldl_fmul_finite by simp
  finally show ?thesis .
qed

lemma length_raw_returns: "length (raw_returns closes) = length closes - 1"
  by (simp add: raw_returns_def)

lemma strategy_returns_finite:
  assumes "0 \<notin> set closes" "closes \<noteq> []"
  shows "\<exists>srs. length srs = length closes - 1 \<and>
     Strategy_Return (ema_columns closes sw lw cash) = NaN # map Fin srs"
proof -
  let ?sig = "signal_col (ewm_values (span_alpha sw) closes) (ewm_values (span_alpha lw) closes)"
  have len: "length ?sig = length closes" by (rule length_signal_col)
  with assms(2) have "?sig \<noteq> []" by auto
  from position_col_finite [OF this]
  have p: "position_col ?sig = NaN # map Fin (map of_int (butlast ?sig))" .
  let ?srs = "map2 (*) (raw_returns closes) (map of_int (butlast ?sig))"
  have "Strategy_Return (ema_columns closes sw lw cash) = NaN # map Fin ?srs"
    unfolding ema_columns_def columns_sel return_col_finite [OF assms] p
    by (rule strategy_return_col_finite)
  moreover have "length ?srs = length closes - 1"
    by (simp add: length_raw_returns len)
  ultimately show ?thesis by blast
qed

lemma cum_value_matches_spec:
  assumes "rets = NaN # map Fin rs" "1 \<le> i" "i \<le> length rs"
  shows "cum_value rets cash ! i = spec_cum_product rets cash i \<and>
         (\<exists>v. cum_value rets cash ! i = Fin v)"
proof -
  from assms(2) obtain j where j: "i = Suc j" by (cases i) auto
  with assms(3) have "j < length rs" by simp
  from cum_value_finite [OF this, of cash] spec_cum_product_finite [OF this, of cash]
  show ?thesis unfolding assms(1) j by simp
qed

text \<open>
  Claim C2, as amended. For every non-empty series of non-zero closes, every initial cash
  and all windows of at least 1, the backtest returns; at every bar \<open>i \<ge> 1\<close> the portfolio
  value is the initial cash times the product over \<open>k = 1..i\<close> of
  \<open>1 + Strategy_Return[k]\<close>, and the buy-and-hold value the same with \<open>Return\<close>, both
  finite numbers. At bar 0 both values are NaN (the return of the first bar is missing
  and the cumulative product keeps the gap), not the initial cash.
\<close>
theorem portfolio_value_is_cumulative_product:
  assumes "0 \<notin> set closes" "closes \<noteq> []" "1 \<le> short_window" "1 \<le> long_window"
  shows "\<exists>m. ema_crossover_backtest closes short_window long_window initial_cash = Inr m \<and>
    Portfolio_Value (data m) ! 0 = NaN \<and> Buy_Hold_Value (data m) ! 0 = NaN \<and>
    (\<forall>i. 1 \<le> i \<and> i < length closes \<longrightarrow>
       Portfolio_Value (data m) ! i
         = spec_cum_product (Strategy_Return (data m)) initial_cash i \<and>
       Buy_Hold_Value (data m) ! i = spec_cum_product (Return (data m)) initial_cash i \<and>
       (\<exists>v. Portfolio_Value (data m) ! i = Fin v) \<and>
       (\<exists>v. Buy_Hold_Value (data m) ! i = Fin v))"
proof -
  let ?d = "ema_columns closes short_window long_window initial_cash"
  from backtest_success [OF assms(3,4,2), of initial_cash] obtain m where
    m: "ema_crossover_backtest closes short_window long_window initial_cash = Inr m"
       "data m = ?d"
    by blast
  from strategy_returns_finite [OF assms(1,2), of short_window long_window initial_cash]
  obtain srs where srs: "length srs = length closes - 1" "Strategy_Return ?d = NaN # map Fin srs"
    by blast
  have ret: "Return ?d = NaN # map Fin (raw_returns closes)"
    by (simp add: ema_columns_def return_col_finite [OF assms(1,2)])
  have pv: "Portfolio_Value ?d = cum_value (Strategy_Return ?d) initial_cash"
    and bh: "Buy_Hold_Value ?d = cum_value (Return ?d) initial_cash"
    by (simp_all add: ema_columns_def)
  have first: "Portfolio_Value ?d ! 0 = NaN" "Buy_Hold_Value ?d ! 0 = NaN"
    unfolding pv bh srs(2) ret by (rule cum_value_first)+
  have later: "Portfolio_Value ?d ! i = spec_cum_product (Strategy_Return ?d) initial_cash i \<and>
       Buy_Hold_Value ?d ! i = spec_cum_product (Return ?d) initial_cash i \<and>
       (\<exists>v. Portfolio_Value ?d ! i = Fin v) \<and> (\<exists>v. Buy_Hold_Value ?d ! i = Fin v)"
    if "1 \<le> i \<and> i < length closes" for i
  proof -
    from that have i: "1 \<le> i" "i \<le> length srs" "i \<le> length (raw_returns closes)"
      by (auto simp: srs(1) length_raw_returns)
    from cum_value_matches_spec [OF srs(2) i(1,2), of initial_cash]
      cum_value_matches_spec [OF ret i(1,3), of initial_cash]
    show ?thesis unfolding pv bh by blast
  qed
  from m(1) first later show ?thesis unfolding m(2) [symmetric] by blast
qed

theorem portfolio_value_is_cumulative_product_witness:
  "0 \<notin> set [10, 11, 9 :: real] \<and> [10, 11, 9 :: real] \<noteq> [] \<and> (1::int) \<le> 2 \<and> (1::int) \<le> 4 \<and>
   map_sum id (Strategy_Return \<circ> data) (ema_crossover_backtest [10, 11, 9] 2 4 10000)
     = Inr [NaN, Fin 0, Fin (- 2 / 11)] \<and>
   map_sum id (Portfolio_Value \<circ> data) (ema_crossover_backtest [10, 11, 9] 2 4 10000)
     = Inr [NaN, Fin 10000, Fin (90000 / 11)]"
proof -
  from portfolio_value_is_cumulative_product [of "[10, 11, 9]" 2 4 10000] obtain m where
    m: "ema_crossover_backtest [10, 11, 9] 2 4 10000 = Inr m"
    and p0: "Portfolio_Value (data m) ! 0 = NaN"
    and p: "\<And>i. 1 \<le> i \<and> i < 3 \<Longrightarrow>
       Portfolio_Value (data m) ! i = spec_cum_product (Strategy_Return (data m)) 10000 i"
    by auto
  from backtest_InrD [OF m] have d: "data m = ema_columns [10, 11, 9] 2 4 10000"
    by simp
  have sr: "Strategy_Return (data m) = [NaN, Fin 0, Fin (- 2 / 11)]"
    unfolding d
    by (simp add: ema_columns_def span_alpha_def signal_col_def position_col_def shift1_def
        return_col_def pct_change_def strategy_return_col_def fsub_def)
  have three: "length xs = 3 \<Longrightarrow> xs = [xs ! 0, xs ! 1, xs ! 2]" for xs :: "f64 list"
    by (cases xs; cases "tl xs"; cases "tl (tl xs)") auto
  have u: "[Suc 0..<Suc (Suc 0)] = [Suc 0]" "[Suc 0..<3] = [Suc 0, 2]"
    by (simp_all add: upt_rec)
  have "length (Portfolio_Value (data m)) = 3"
    unfolding d by (simp add: length_ema_columns)
  from three [OF this] p0 p [of 1] p [of 2]
  have "Portfolio_Value (data m) = [NaN, Fin 10000, Fin (90000 / 11)]"
    by (simp add: sr spec_cum_product_def u del: upt_Suc)
  with m sr show ?thesis by simp
qed

theorem portfolio_value_first_bar_counterexample:
  "map_sum id (Portfolio_Value \<circ> data) (ema_crossover_backtest [10, 11, 9] 2 4 10000)
     = Inr [NaN, Fin 10000, Fin (90000 / 11)] \<and>
   [NaN, Fin 10000, Fin (90000 / 11)] ! 0 \<noteq> Fin 10000"
  by (simp add: ema_crossover_backtest_def ewm_mean_def metrics_def iloc_last_def
      cum_value_def cumprod_def span_alpha_def signal_col_def position_col_def shift1_def
      return_col_def pct_change_def strategy_return_col_def fsub_def)

section \<open>Failures of the backtest (claim C3)\<close>

text \<open>
  Claim C3, as amended. The backtest checks neither the order of the windows nor the
  length of the series. It fails with the ValueError of \<open>ewm\<close> exactly when a window is
  below 1, and with the IndexError of \<open>iloc[-1]\<close> when the windows are valid and the
  series is empty. In every other case, also for a short window at or above the long one
  and for a series of one bar, it returns the frame and the three metrics.
\<close>
theorem backtest_failures:
  "ema_crossover_backtest closes short_window long_window initial_cash =
     (if short_window < 1 \<or> long_window < 1 then Inl ValueError
      else if closes = [] then Inl IndexError
      else Inr \<lparr> data = ema_columns closes short_window long_window initial_cash,
                 total_return = pct_of_cash
                   (last (Portfolio_Value
                            (ema_columns closes short_window long_window initial_cash)))
                   initial_cash,
                 buyhold_return = pct_of_cash
                   (last (Buy_Hold_Value
                            (ema_columns closes short_window long_window initial_cash)))
                   initial_cash,
                 sharpe_ratio = sharpe_of
                   (Strategy_Return
                      (ema_columns closes short_window long_window initial_cash)) \<rparr>)"
proof (cases "short_window < 1 \<or> long_window < 1")
  case True
  then show ?thesis by (simp add: backtest_errors(1))
next
  case False
  then have w: "1 \<le> short_window" "1 \<le> long_window" by auto
  show ?thesis
  proof (cases "closes = []")
    case True
    with w False show ?thesis by (simp add: backtest_errors(2))
  next
    case ne: False
    from backtest_success [OF w ne, of initial_cash] obtain m where
      m: "ema_crossover_backtest closes short_window long_window initial_cash = Inr m"
      by blast
    with w have "metrics (ema_columns closes short_window long_window initial_cash) initial_cash
        = Inr m"
      by (simp add: ema_crossover_backtest_def ewm_mean_def ema_columns_def)
    then show ?thesis using m False ne by (simp add: metrics_Inr_iff)
  qed
qed

theorem backtest_no_window_check_counterexample:
  "map_sum id total_return (ema_crossover_backtest [10, 11, 9] 4 2 10000) = Inr (Fin 0) \<and>
   map_sum id total_return (ema_crossover_backtest [10] 2 4 10000) = Inr NaN"
  by (simp add: ema_crossover_backtest_def ewm_mean_def metrics_def iloc_last_def
      cum_value_def cumprod_def span_alpha_def signal_col_def position_col_def shift1_def
      return_col_def pct_change_def strategy_return_col_def fsub_def pct_of_cash_def
      columns_def Let_def)

section \<open>The Sharpe ratio (claim C6)\<close>

lemma foldl_fadd_finite: "foldl fadd (Fin a) (map Fin xs) = Fin (a + sum_list xs)"
  by (induction xs arbitrary: a) (simp_all add: add.assoc)

lemma fsum_finite: "fsum (map Fin xs) = Fin (sum_list xs)"
  by (simp add: fsum_def foldl_fadd_finite)

lemma dropna_finite: "dropna (NaN # map Fin rs) = map Fin rs"
  by (simp add: dropna_def filter_map comp_def)

lemma mean_skipna_finite:
  "rs \<noteq> [] \<Longrightarrow> mean_skipna (NaN # map Fin rs) = Fin (sum_list rs / real (length rs))"
  by (simp add: mean_skipna_def dropna_finite fsum_finite)

lemma mean_skipna_none: "dropna xs = [] \<Longrightarrow> mean_skipna xs = NaN"
  by (simp add: mean_skipna_def)

lemma std_skipna_few: "length (dropna xs) \<le> 1 \<Longrightarrow> std_skipna xs = NaN"
  by (simp add: std_skipna_def)

lemma fsum_squares_finite:
  "fsum (map ((\<lambda>x. fmul (fsub (Fin a) x) (fsub (Fin a) x)) \<circ> Fin) rs)
     = Fin (sum_list (map (\<lambda>x. (a - x)\<^sup>2) rs))"
proof -
  have "map ((\<lambda>x. fmul (fsub (Fin a) x) (fsub (Fin a) x)) \<circ> Fin) rs
          = map Fin (map (\<lambda>x. (a - x)\<^sup>2) rs)"
    by (simp add: fsub_def power2_eq_square)
  then show ?thesis by (simp only: fsum_finite)
qed

lemma std_skipna_finite:
  assumes "2 \<le> length rs"
  shows "std_skipna (NaN # map Fin rs) =
    Fin (sqrt (sum_list (map (\<lambda>x. (sum_list rs / real (length rs) - x)\<^sup>2) rs)
               / (real (length rs) - 1)))"
proof -
  let ?n = "real (length rs)"
  let ?avg = "sum_list rs / ?n"
  from assms have n: "?n \<noteq> 0" "?n - 1 \<noteq> 0" "0 < ?n - 1" by auto
  have nonneg: "0 \<le> sum_list (map (\<lambda>x. (?avg - x)\<^sup>2) rs) / (?n - 1)"
    using n(3) by (intro divide_nonneg_pos sum_list_nonneg) auto
  then have "\<not> sum_list (map (\<lambda>x. (?avg - x)\<^sup>2) rs) / (?n - 1) < 0" by simp
  moreover have "\<not> length rs \<le> 1" using assms by simp
  ultimately show ?thesis
    using n
    by (simp add: std_skipna_def dropna_finite Let_def fsum_finite fsum_squares_finite)
qed

lemma std_zero_constant:
  assumes "std_skipna (NaN # map Fin rs) = Fin 0"
  shows "2 \<le> length rs \<and> (\<forall>x\<in>set rs. x = sum_list rs / real (length rs))"
proof -
  have len: "2 \<le> length rs"
  proof (rule ccontr)
    assume "\<not> 2 \<le> length rs"
    then have "length (dropna (NaN # map Fin rs)) \<le> 1" by (simp add: dropna_finite)
    from std_skipna_few [OF this] assms show False by simp
  qed
  let ?n = "real (length rs)"
  let ?avg = "sum_list rs / ?n"
  let ?S = "sum_list (map (\<lambda>x. (?avg - x)\<^sup>2) rs)"
  from len have n: "?n - 1 \<noteq> 0" by auto
  from assms std_skipna_finite [OF len] have "sqrt (?S / (?n - 1)) = 0" by simp
  then have "?S = 0" using n by simp
  moreover have "\<forall>y\<in>set (map (\<lambda>x. (?avg - x)\<^sup>2) rs). 0 \<le> y" by auto
  ultimately have "\<forall>y\<in>set (map (\<lambda>x. (?avg - x)\<^sup>2) rs). y = 0"
    using sum_list_nonneg_eq_0_iff [of "map (\<lambda>x. (?avg - x)\<^sup>2) rs"] by blast
  then have "\<forall>x\<in>set rs. (?avg - x)\<^sup>2 = 0" by simp
  then have "\<forall>x\<in>set rs. x = ?avg" by simp
  with len show ?thesis by blast
qed

lemma strategy_return_second_bar:
  assumes "0 \<notin> set closes" "2 \<le> length closes"
  shows "Strategy_Return (ema_columns closes sw lw cash) ! 1 = Fin 0"
proof -
  let ?sig = "signal_col (ewm_values (span_alpha sw) closes) (ewm_values (span_alpha lw) closes)"
  from assms(2) have ne: "closes \<noteq> []" by auto
  have len: "length ?sig = length closes" by (rule length_signal_col)
  with assms(2) have "Suc 0 < length ?sig" by simp
  from position_col_nth_Suc [OF this] signal_col_first [OF ne]
  have pos: "position_col ?sig ! 1 = Fin 0" by simp
  from assms(2) have "0 < length (raw_returns closes)" by (simp add: length_raw_returns)
  then have ret: "return_col closes ! 1 = Fin (raw_returns closes ! 0)"
    by (simp add: return_col_finite [OF assms(1) ne])
  have "1 < length (return_col closes)" "1 < length (position_col ?sig)"
    using assms(2) len by (simp_all add: length_return_col length_position_col)
  then have "strategy_return_col (return_col closes) (position_col ?sig) ! 1
      = fmul (return_col closes ! 1) (position_col ?sig ! 1)"
    by (simp add: strategy_return_col_def)
  with pos ret show ?thesis by (simp add: ema_columns_def)
qed

lemma sharpe_not_finite: "std_skipna sr = Fin 0 \<Longrightarrow> sharpe_of sr \<noteq> Fin v"
  by (cases "mean_skipna sr") (auto simp: sharpe_of_def sgn_inf_def)

text \<open>
  Claim C6, as amended. For all windows of at least 1: whenever the standard deviation of
  the defined strategy returns is 0, or the series is not empty and no strategy return is
  defined, the backtest returns (no exception) and its Sharpe ratio is not a finite
  number, so never the number 0. For a series of non-zero closes it is NaN, the value
  pandas uses for "undefined": the second bar always contributes the strategy return 0,
  so constant returns are all 0 and the ratio is \<open>0 / 0\<close>. After a zero close the returns
  can be constant and non-zero, and the ratio is then an infinity, not NaN; and on the
  empty series the backtest raises IndexError before the ratio is computed.
\<close>
theorem zero_deviation_sharpe_is_nan:
  assumes "1 \<le> short_window" "1 \<le> long_window"
    and "std_skipna (Strategy_Return (ema_columns closes short_window long_window initial_cash))
           = Fin 0
         \<or> closes \<noteq> [] \<and>
           dropna (Strategy_Return (ema_columns closes short_window long_window initial_cash))
             = []"
  shows "\<exists>m. ema_crossover_backtest closes short_window long_window initial_cash = Inr m \<and>
             (\<forall>v. sharpe_ratio m \<noteq> Fin v) \<and>
             (0 \<notin> set closes \<longrightarrow> sharpe_ratio m = NaN)"
proof -
  let ?sr = "Strategy_Return (ema_columns closes short_window long_window initial_cash)"
  have ne: "closes \<noteq> []"
  proof
    assume "closes = []"
    then have "?sr = []"
      by (simp add: ema_columns_def strategy_return_col_def return_col_def pct_change_def
          shift1_def)
    with assms(3) \<open>closes = []\<close> show False by (simp add: std_skipna_def dropna_def)
  qed
  from backtest_success [OF assms(1,2) ne, of initial_cash] obtain m where
    m: "ema_crossover_backtest closes short_window long_window initial_cash = Inr m"
       "sharpe_ratio m = sharpe_of ?sr"
    by blast
  have not_number: "sharpe_of ?sr \<noteq> Fin v" for v
  proof (cases "std_skipna ?sr = Fin 0")
    case True
    then show ?thesis by (rule sharpe_not_finite)
  next
    case False
    with assms(3) have "dropna ?sr = []" by blast
    then show ?thesis by (simp add: sharpe_of_def mean_skipna_none)
  qed
  have nan: "sharpe_of ?sr = NaN" if nonzero: "0 \<notin> set closes"
  proof (cases "std_skipna ?sr = Fin 0")
    case True
    from strategy_returns_finite [OF nonzero ne, of short_window long_window initial_cash]
    obtain srs where srs: "length srs = length closes - 1" "?sr = NaN # map Fin srs"
      by blast
    from True std_zero_constant [of srs] srs(2)
    have c: "2 \<le> length srs" "\<forall>x\<in>set srs. x = sum_list srs / real (length srs)"
      by simp_all
    from c(1) srs(1) have "2 \<le> length closes" by simp
    from strategy_return_second_bar [OF nonzero this, of short_window long_window initial_cash]
    have second: "(NaN # map Fin srs) ! 1 = Fin 0" by (simp add: srs(2))
    from c(1) have pos: "0 < length srs" by (cases srs) simp_all
    with second have "srs ! 0 = 0" by simp
    moreover from pos have "srs ! 0 \<in> set srs" by (rule nth_mem)
    ultimately have "sum_list srs / real (length srs) = 0" using c(2) by metis
    moreover from pos have "srs \<noteq> []" by auto
    ultimately have "mean_skipna ?sr = Fin 0"
      by (simp add: srs(2) mean_skipna_finite)
    with True show ?thesis by (simp add: sharpe_of_def sgn_inf_def)
  next
    case False
    with assms(3) have "dropna ?sr = []" by blast
    then show ?thesis by (simp add: sharpe_of_def mean_skipna_none)
  qed
  from m not_number nan show ?thesis by auto
qed

theorem zero_deviation_sharpe_is_nan_witness:
  "(1::int) \<le> 2 \<and> (1::int) \<le> 4 \<and> 0 \<notin> set [10, 9, 8 :: real] \<and>
   Strategy_Return (ema_columns [10, 9, 8] 2 4 10000) = [NaN, Fin 0, Fin 0] \<and>
   std_skipna (Strategy_Return (ema_columns [10, 9, 8] 2 4 10000)) = Fin 0 \<and>
   map_sum id sharpe_ratio (ema_crossover_backtest [10, 9, 8] 2 4 10000) = Inr NaN"
proof -
  have sr: "Strategy_Return (ema_columns [10, 9, 8] 2 4 10000) = [NaN, Fin 0, Fin 0]"
    by (simp add: ema_columns_def span_alpha_def signal_col_def position_col_def shift1_def
        return_col_def pct_change_def strategy_return_col_def fsub_def)
  have sd: "std_skipna [NaN, Fin 0, Fin 0] = Fin 0"
    by (simp add: std_skipna_def dropna_def fsum_def fsub_def Let_def)
  from zero_deviation_sharpe_is_nan [of 2 4 "[10, 9, 8]" 10000] sr sd
  have "\<exists>m. ema_crossover_backtest [10, 9, 8] 2 4 10000 = Inr m \<and> sharpe_ratio m = NaN"
    by auto
  then show ?thesis using sr sd by auto
qed

theorem zero_deviation_sharpe_counterexample:
  "Strategy_Return (ema_columns [0, 1, 2, 4, 8] 2 4 10000) = [NaN, NaN, Fin 1, Fin 1, Fin 1] \<and>
   std_skipna (Strategy_Return (ema_columns [0, 1, 2, 4, 8] 2 4 10000)) = Fin 0 \<and>
   map_sum id sharpe_ratio (ema_crossover_backtest [0, 1, 2, 4, 8] 2 4 10000) = Inr PInf \<and>
   ema_crossover_backtest [] 2 4 10000 = Inl IndexError"
proof -
  have sr: "Strategy_Return (ema_columns [0, 1, 2, 4, 8] 2 4 10000)
      = [NaN, NaN, Fin 1, Fin 1, Fin 1]"
    by (simp add: ema_columns_def span_alpha_def signal_col_def position_col_def shift1_def
        return_col_def pct_change_def strategy_return_col_def fsub_def sgn_inf_def)
  have sd: "std_skipna [NaN, NaN, Fin 1, Fin 1, Fin 1] = Fin 0"
    by (simp add: std_skipna_def dropna_def fsum_def fsub_def Let_def)
  have mean: "mean_skipna [NaN, NaN, Fin 1, Fin 1, Fin 1] = Fin 1"
    by (simp add: mean_skipna_def dropna_def fsum_def Let_def)
  have "sharpe_of [NaN, NaN, Fin 1, Fin 1, Fin 1] = PInf"
    unfolding sharpe_of_def sd mean by (simp add: sgn_inf_def)
  moreover from backtest_success [of 2 4 "[0, 1, 2, 4, 8]" 10000] obtain m where
    "ema_crossover_backtest [0, 1, 2, 4, 8] 2 4 10000 = Inr m"
    "sharpe_ratio m = sharpe_of (Strategy_Return (ema_columns [0, 1, 2, 4, 8] 2 4 10000))"
    by auto
  ultimately have "map_sum id sharpe_ratio (ema_crossover_backtest [0, 1, 2, 4, 8] 2 4 10000)
      = Inr PInf"
    by (simp add: sr)
  moreover have "ema_crossover_backtest [] 2 4 10000 = Inl IndexError"
    by (simp add: backtest_errors)
  ultimately show ?thesis using sr sd by simp
qed

section \<open>The trades (claims C4 and C5)\<close>

lemma index_where_subset: "set (index_where dates col v) \<subseteq> set dates"
  by (auto simp: index_where_def dest: set_zip_leftD)

lemma loc_row_unique:
  "distinct (map fst bars) \<Longrightarrow> l \<in> fst ` set bars \<Longrightarrow>
   map snd (filter (\<lambda>(d, c). d = l) bars) = [the (map_of bars l)]"
proof (induction bars)
  case Nil
  then show ?case by simp
next
  case (Cons b bars)
  obtain d c where b: "b = (d, c)" by (cases b)
  show ?case
  proof (cases "d = l")
    case True
    with Cons.prems b have "l \<notin> fst ` set bars" by auto
    then have "filter (\<lambda>(d, c). d = l) bars = []"
      by (force simp: filter_empty_conv)
    with True b show ?thesis by simp
  next
    case False
    with Cons.prems b have "l \<in> fst ` set bars" "distinct (map fst bars)" by auto
    with Cons.IH False b show ?thesis by simp
  qed
qed

lemma loc_close_unique:
  "distinct (map fst bars) \<Longrightarrow> set labels \<subseteq> fst ` set bars \<Longrightarrow>
   loc_close bars labels = map (\<lambda>l. the (map_of bars l)) labels"
  by (induction labels) (simp_all add: loc_close_def loc_row_unique)

lemma pair_rows:
  "length es = length xs \<Longrightarrow>
   map2 (\<lambda>(en, ex) (p, q). trade_row en ex p q) (zip es xs) (zip (map f es) (map f xs))
     = map2 (\<lambda>en ex. trade_row en ex (f en) (f ex)) es xs"
  by (induction es xs rule: list_induct2) simp_all

lemma extract_trades_result:
  assumes "distinct (map fst bars)"
    and "length (exits bars pos) = length (entries bars pos)
         \<or> Suc (length (exits bars pos)) = length (entries bars pos)"
  shows "extract_trades bars pos =
     Inr (map2 (\<lambda>en ex. trade_row en ex (the (map_of bars en)) (the (map_of bars ex)))
            (entries bars pos)
            (if length (exits bars pos) < length (entries bars pos)
             then exits bars pos @ [fst (last bars)] else exits bars pos))"
proof -
  let ?es = "entries bars pos" and ?x0 = "exits bars pos"
  let ?xs = "if length ?x0 < length ?es then ?x0 @ [fst (last bars)] else ?x0"
  let ?f = "\<lambda>l. the (map_of bars l)"
  have sub: "set ?es \<subseteq> fst ` set bars" "set ?x0 \<subseteq> fst ` set bars"
    using index_where_subset [of "map fst bars"] by (auto simp: entries_def exits_def)
  have ne: "bars \<noteq> []" if "length ?x0 < length ?es"
  proof
    assume "bars = []"
    then have "?es = []" by (simp add: entries_def index_where_def)
    with that show False by simp
  qed
  then have cl: "closed_exits bars pos = Inr ?xs"
    by (auto simp: closed_exits_def iloc_last_def last_map)
  from assms(2) have len: "length ?es = length ?xs" by auto
  have subx: "set ?xs \<subseteq> fst ` set bars"
    using sub(2) ne by (auto simp: last_in_set)
  have ep: "loc_close bars ?es = map ?f ?es" and xp: "loc_close bars ?xs = map ?f ?xs"
    using loc_close_unique [OF assms(1)] sub(1) subx by blast+
  show ?thesis
  proof (cases "?es = []")
    case True
    with len show ?thesis
      unfolding extract_trades_def cl by (simp add: Let_def)
  next
    case False
    have "extract_trades bars pos
        = Inr (map2 (\<lambda>(en, ex) (p, q). trade_row en ex p q)
                 (zip ?es ?xs) (zip (map ?f ?es) (map ?f ?xs)))"
      unfolding extract_trades_def cl using False len
      by (simp add: Let_def ep xp del: map_append)
    then show ?thesis by (simp only: pair_rows [OF len])
  qed
qed

lemma length_index_where:
  "length dates = length col \<Longrightarrow>
   length (index_where dates col v) = length (filter (\<lambda>t. t = Fin v) col)"
  unfolding index_where_def length_map
  by (induction dates col rule: list_induct2) simp_all

lemma diff_tail:
  "map2 fsub (map Fin qs) (butlast (map Fin (p # qs)))
     = map Fin (map2 (-) qs (butlast (p # qs)))"
proof (induction qs arbitrary: p)
  case Nil
  then show ?case by simp
next
  case (Cons q qs)
  from Cons.IH [of q] show ?case by (simp add: fsub_def)
qed

lemma diff_finite:
  "diff (NaN # map Fin (p # qs)) = NaN # NaN # map Fin (map2 (-) qs (butlast (p # qs)))"
  using diff_tail [of qs p] by (simp add: diff_def shift1_def fsub_def)

lemma count_finite:
  "length (filter (\<lambda>t. t = Fin v) (NaN # NaN # map Fin dl)) = length (filter (\<lambda>x. x = v) dl)"
  by (induction dl) simp_all

lemma transitions_telescope:
  "\<forall>x\<in>set (p # qs). x = 0 \<or> x = (1::real) \<Longrightarrow>
   real (length (filter (\<lambda>x. x = 1) (map2 (-) qs (butlast (p # qs)))))
     - real (length (filter (\<lambda>x. x = - 1) (map2 (-) qs (butlast (p # qs)))))
   = last (p # qs) - p"
proof (induction qs arbitrary: p)
  case Nil
  then show ?case by simp
next
  case (Cons q qs)
  from Cons.prems have pq: "p = 0 \<or> p = 1" "q = 0 \<or> q = 1"
    and rest: "\<forall>x\<in>set (q # qs). x = 0 \<or> x = 1" by auto
  from Cons.IH [OF rest] pq show ?case by auto
qed

lemma signal_col_values: "\<forall>s\<in>set (signal_col es el). s = 0 \<or> s = 1"
  by (auto simp: signal_col_def)

lemma entries_exits_balance:
  assumes "length sig = length bars" "\<forall>s\<in>set sig. s = 0 \<or> s = 1"
    and "sig \<noteq> [] \<longrightarrow> sig ! 0 = 0"
  shows "length (exits bars (position_col sig)) = length (entries bars (position_col sig))
       \<or> Suc (length (exits bars (position_col sig))) = length (entries bars (position_col sig))"
proof (cases "butlast sig")
  case Nil
  then have "position_col sig = [] \<or> position_col sig = [NaN]"
    by (cases "sig = []") (simp_all add: position_col_def shift1_def map_butlast [symmetric])
  then have "diff (position_col sig) = [] \<or> diff (position_col sig) = [NaN]"
    by (auto simp: diff_def shift1_def fsub_def)
  then show ?thesis
    by (cases bars) (auto simp: entries_def exits_def index_where_def)
next
  case (Cons s ss)
  then have ne: "sig \<noteq> []" by auto
  let ?p = "real_of_int s" and ?qs = "map real_of_int ss"
  let ?dl = "map2 (-) ?qs (butlast (?p # ?qs))"
  from position_col_finite [OF ne] Cons
  have pos: "position_col sig = NaN # map Fin (?p # ?qs)" by simp
  have d: "diff (position_col sig) = NaN # NaN # map Fin ?dl"
    unfolding pos by (rule diff_finite)
  have "length (diff (position_col sig)) = length sig"
    by (simp add: diff_def length_shift1 length_position_col)
  with assms(1) have len: "length (map fst bars) = length (diff (position_col sig))" by simp
  have "length (entries bars (position_col sig))
          = length (filter (\<lambda>t. t = Fin 1) (diff (position_col sig)))"
    unfolding entries_def by (rule length_index_where [OF len])
  then have en: "length (entries bars (position_col sig)) = length (filter (\<lambda>x. x = 1) ?dl)"
    unfolding d count_finite .
  have "length (exits bars (position_col sig))
          = length (filter (\<lambda>t. t = Fin (- 1)) (diff (position_col sig)))"
    unfolding exits_def by (rule length_index_where [OF len])
  then have ex: "length (exits bars (position_col sig)) = length (filter (\<lambda>x. x = - 1) ?dl)"
    unfolding d count_finite .
  have "s = sig ! 0"
    using Cons ne by (cases sig) (auto split: if_splits)
  with assms(3) ne have s0: "s = 0" by simp
  have "set (butlast sig) \<subseteq> set sig" by (auto dest: in_set_butlastD)
  with assms(2) Cons have "\<forall>x\<in>set (s # ss). x = 0 \<or> x = 1" by auto
  then have vals: "\<forall>x\<in>set (?p # ?qs). x = 0 \<or> x = 1" by auto
  then have "last (?p # ?qs) = 0 \<or> last (?p # ?qs) = 1"
    using last_in_set [of "?p # ?qs"] by blast
  with transitions_telescope [OF vals] s0 en ex show ?thesis by auto
qed

lemma map_of_last:
  assumes "distinct (map fst bars)" "bars \<noteq> []"
  shows "the (map_of bars (fst (last bars))) = snd (last bars)"
proof -
  from assms(2) have "last bars \<in> set bars" by simp
  then have "(fst (last bars), snd (last bars)) \<in> set bars" by simp
  from map_of_is_SomeI [OF assms(1) this] show ?thesis by simp
qed

lemma trade_row_sel [simp]:
  "Entry (trade_row en ex p q) = en" "Exit (trade_row en ex p q) = ex"
  "Entry_Price (trade_row en ex p q) = p" "Exit_Price (trade_row en ex p q) = q"
  by (simp_all add: trade_row_def)

text \<open>
  Claim C4. For every frame with distinct dates and every position series with \<open>k\<close> entry
  transitions and \<open>k\<close> or \<open>k - 1\<close> exit transitions, the trade analysis returns exactly
  \<open>k\<close> trades. The \<open>j\<close>-th trade holds the \<open>j\<close>-th entry date, in date order, with the close
  of that date, and the \<open>j\<close>-th exit date with its close. When one exit is missing, the
  last trade exits on the last bar: its exit date is the last date of the series and its
  exit price the last close.
\<close>
theorem trades_pair_entries_with_exits:
  assumes "distinct (map fst bars)"
    and "length (entries bars pos) = k"
    and "length (exits bars pos) = k \<or> Suc (length (exits bars pos)) = k"
  shows "\<exists>ts. extract_trades bars pos = Inr ts \<and> length ts = k \<and>
    (\<forall>j<k. Entry (ts ! j) = entries bars pos ! j \<and>
            Entry_Price (ts ! j) = the (map_of bars (entries bars pos ! j))) \<and>
    (\<forall>j<length (exits bars pos).
            Exit (ts ! j) = exits bars pos ! j \<and>
            Exit_Price (ts ! j) = the (map_of bars (exits bars pos ! j))) \<and>
    (Suc (length (exits bars pos)) = k \<longrightarrow>
       Exit (last ts) = fst (last bars) \<and> Exit_Price (last ts) = snd (last bars))"
proof -
  let ?es = "entries bars pos" and ?x0 = "exits bars pos"
  let ?xs = "if length ?x0 < length ?es then ?x0 @ [fst (last bars)] else ?x0"
  let ?f = "\<lambda>l. the (map_of bars l)"
  let ?ts = "map2 (\<lambda>en ex. trade_row en ex (?f en) (?f ex)) ?es ?xs"
  from assms(2,3) have bal: "length ?x0 = length ?es \<or> Suc (length ?x0) = length ?es"
    by simp
  define ts where "ts = ?ts"
  from extract_trades_result [OF assms(1) bal]
  have res: "extract_trades bars pos = Inr ts" unfolding ts_def .
  from assms(2,3) have lx: "length ?xs = k" by auto
  with assms(2) have lt: "length ts = k" by (simp add: ts_def)
  have nth: "ts ! j = trade_row (?es ! j) (?xs ! j) (?f (?es ! j)) (?f (?xs ! j))"
    if "j < k" for j
    using that assms(2) lx by (simp add: ts_def)
  have entry: "Entry (ts ! j) = ?es ! j \<and> Entry_Price (ts ! j) = ?f (?es ! j)"
    if "j < k" for j
    unfolding nth [OF that] by simp
  have exit: "Exit (ts ! j) = ?x0 ! j \<and> Exit_Price (ts ! j) = ?f (?x0 ! j)"
    if "j < length ?x0" for j
  proof -
    from that assms(3) have j: "j < k" by auto
    from that have "?xs ! j = ?x0 ! j" by (simp add: nth_append)
    then show ?thesis unfolding nth [OF j] by simp
  qed
  have final: "Exit (last ts) = fst (last bars) \<and> Exit_Price (last ts) = snd (last bars)"
    if open_end: "Suc (length ?x0) = k"
  proof -
    from open_end assms(2) have lt0: "length ?x0 < length ?es" by simp
    have ne: "bars \<noteq> []"
    proof
      assume "bars = []"
      then have "?es = []" by (simp add: entries_def index_where_def)
      with lt0 show False by simp
    qed
    from open_end have k: "k - 1 < k" by simp
    from lt open_end have "ts \<noteq> []" by auto
    then have "last ts = ts ! (length ts - 1)" by (rule last_conv_nth)
    with lt have l: "last ts = ts ! (k - 1)" by simp
    from open_end have "k - 1 = length ?x0" by simp
    with lt0 have x: "?xs ! (k - 1) = fst (last bars)"
      by simp
    show ?thesis
      unfolding l nth [OF k] x by (simp add: map_of_last [OF assms(1) ne])
  qed
  show ?thesis
  proof (intro exI [of _ ts] conjI allI impI)
    show "extract_trades bars pos = Inr ts" by (rule res)
    show "length ts = k" by (rule lt)
  next
    fix j assume "j < k"
    from entry [OF this] show "Entry (ts ! j) = ?es ! j"
      and "Entry_Price (ts ! j) = ?f (?es ! j)" by simp_all
  next
    fix j assume "j < length ?x0"
    from exit [OF this] show "Exit (ts ! j) = ?x0 ! j"
      and "Exit_Price (ts ! j) = ?f (?x0 ! j)" by simp_all
  next
    assume "Suc (length ?x0) = k"
    from final [OF this] show "Exit (last ts) = fst (last bars)"
      and "Exit_Price (last ts) = snd (last bars)" by simp_all
  qed
qed

theorem trades_pair_entries_with_exits_witness:
  "distinct (map fst [(0::nat, 10::real), (1, 11), (2, 12), (3, 13), (4, 14)]) \<and>
   entries [(0::nat, 10::real), (1, 11), (2, 12), (3, 13), (4, 14)]
     [NaN, Fin 0, Fin 1, Fin 0, Fin 1] = [2, 4] \<and>
   exits [(0::nat, 10::real), (1, 11), (2, 12), (3, 13), (4, 14)]
     [NaN, Fin 0, Fin 1, Fin 0, Fin 1] = [3] \<and>
   map_sum id (map Exit)
     (extract_trades [(0::nat, 10::real), (1, 11), (2, 12), (3, 13), (4, 14)]
        [NaN, Fin 0, Fin 1, Fin 0, Fin 1]) = Inr [3, 4] \<and>
   map_sum id (map Exit_Price)
     (extract_trades [(0::nat, 10::real), (1, 11), (2, 12), (3, 13), (4, 14)]
        [NaN, Fin 0, Fin 1, Fin 0, Fin 1]) = Inr [13, 14]"
proof -
  let ?bars = "[(0::nat, 10::real), (1, 11), (2, 12), (3, 13), (4, 14)]"
  let ?pos = "[NaN, Fin 0, Fin 1, Fin 0, Fin 1]"
  have en: "entries ?bars ?pos = [2, 4]" and ex: "exits ?bars ?pos = [3]"
    by (simp_all add: entries_def exits_def index_where_def diff_def shift1_def fsub_def)
  have dist: "distinct (map fst ?bars)" by simp
  from trades_pair_entries_with_exits [OF dist, of ?pos 2] en ex
  obtain ts where ts: "extract_trades ?bars ?pos = Inr ts" "length ts = 2"
    and x0: "Exit (ts ! 0) = 3" "Exit_Price (ts ! 0) = 13"
    and x1: "Exit (last ts) = 4" "Exit_Price (last ts) = 14"
    by auto
  from ts(2) obtain a b where ab: "ts = [a, b]"
    by (cases ts; cases "tl ts"; cases "tl (tl ts)") auto
  with x0 x1 have "map Exit ts = [3, 4]" "map Exit_Price ts = [13, 14]" by simp_all
  with ts(1) en ex dist show ?thesis by simp
qed

text \<open>
  Claim C5. For every frame with distinct dates and the position series that the signal
  columns give (any windows), the trade analysis returns a list of trades and raises
  nothing; without entries and exits the list is empty. With windows of at least 1 and a
  frame that is not empty, the backtest of \<open>main.py\<close> returns with these trades.
\<close>
theorem trade_extraction_never_fails:
  assumes "distinct (map fst bars)"
  shows "\<exists>ts. extract_trades bars
               (Position (ema_columns (map snd bars) short_window long_window initial_cash))
             = Inr ts \<and>
    (entries bars (Position (ema_columns (map snd bars) short_window long_window initial_cash))
       = [] \<and>
     exits bars (Position (ema_columns (map snd bars) short_window long_window initial_cash))
       = [] \<longrightarrow> ts = []) \<and>
    (1 \<le> short_window \<and> 1 \<le> long_window \<and> bars \<noteq> [] \<longrightarrow>
       (\<exists>r. ema_crossover_backtest_main bars short_window long_window initial_cash = Inr r \<and>
            trades r = ts))"
proof -
  let ?closes = "map snd bars"
  let ?d = "ema_columns ?closes short_window long_window initial_cash"
  let ?sig = "signal_col (ewm_values (span_alpha short_window) ?closes)
                (ewm_values (span_alpha long_window) ?closes)"
  have pos: "Position ?d = position_col ?sig" by (simp add: ema_columns_def)
  have len: "length ?sig = length bars" by (simp add: length_signal_col)
  have first: "?sig \<noteq> [] \<longrightarrow> ?sig ! 0 = 0"
  proof
    assume "?sig \<noteq> []"
    with len have "?closes \<noteq> []" by auto
    then show "?sig ! 0 = 0" by (rule signal_col_first)
  qed
  from entries_exits_balance [OF len signal_col_values first]
  have bal: "length (exits bars (Position ?d)) = length (entries bars (Position ?d))
       \<or> Suc (length (exits bars (Position ?d))) = length (entries bars (Position ?d))"
    unfolding pos .
  let ?ts = "map2 (\<lambda>en ex. trade_row en ex (the (map_of bars en)) (the (map_of bars ex)))
            (entries bars (Position ?d))
            (if length (exits bars (Position ?d)) < length (entries bars (Position ?d))
             then exits bars (Position ?d) @ [fst (last bars)] else exits bars (Position ?d))"
  from extract_trades_result [OF assms bal]
  have res: "extract_trades bars (Position ?d) = Inr ?ts" .
  have empty: "?ts = []" if "entries bars (Position ?d) = []"
    using that by simp
  have main: "\<exists>r. ema_crossover_backtest_main bars short_window long_window initial_cash = Inr r
      \<and> trades r = ?ts"
    if "1 \<le> short_window \<and> 1 \<le> long_window \<and> bars \<noteq> []"
  proof -
    from that have "?closes \<noteq> []" by simp
    from metrics_columns [OF this, of short_window long_window initial_cash]
    obtain m where m: "metrics ?d initial_cash = Inr m" by blast
    from that res m show ?thesis
      unfolding ema_crossover_backtest_main_def Let_def
      by (simp add: ewm_mean_def ema_columns_def [symmetric] app_result.defs main_result.defs)
  qed
  from res empty main show ?thesis by blast
qed

theorem trade_extraction_never_fails_witness:
  "distinct (map fst [(1::nat, 10::real), (2, 11), (3, 9), (4, 12)]) \<and>
   Position (ema_columns (map snd [(1::nat, 10::real), (2, 11), (3, 9), (4, 12)]) 2 4 10000)
     = [NaN, Fin 0, Fin 1, Fin 0] \<and>
   extract_trades [(1::nat, 10::real), (2, 11), (3, 9), (4, 12)]
     (Position (ema_columns (map snd [(1::nat, 10::real), (2, 11), (3, 9), (4, 12)]) 2 4 10000))
     = Inr [\<lparr> Entry = 3, Exit = 4, Entry_Price = 9, Exit_Price = 12,
              Return_pct = Fin (100 / 3) \<rparr>]"
proof -
  let ?bars = "[(1::nat, 10::real), (2, 11), (3, 9), (4, 12)]"
  have dist: "distinct (map fst ?bars)" by simp
  have pos: "Position (ema_columns (map snd ?bars) 2 4 10000) = [NaN, Fin 0, Fin 1, Fin 0]"
    by (simp add: ema_columns_def span_alpha_def signal_col_def position_col_def shift1_def)
  from trade_extraction_never_fails [OF dist, of 2 4 10000] obtain ts where
    ts: "extract_trades ?bars (Position (ema_columns (map snd ?bars) 2 4 10000)) = Inr ts"
    by blast
  have "extract_trades ?bars [NaN, Fin 0, Fin 1, Fin 0]
      = Inr [\<lparr> Entry = 3, Exit = 4, Entry_Price = 9, Exit_Price = 12,
               Return_pct = Fin (100 / 3) \<rparr>]"
    by (simp add: extract_trades_def closed_exits_def entries_def exits_def index_where_def
        diff_def shift1_def fsub_def loc_close_def trade_row_def Let_def)
  with ts pos dist show ?thesis by simp
qed

section \<open>The optimizer (claim C7)\<close>




















end
